theory Spec2Isabelle
  imports Complex_Main "HOL-Library.AList"
begin

unbundle bit_operations_syntax

section \<open>Shared vocabulary\<close>

text \<open>
  Addresses are Python strings. Instants are the floats returned by \<^verbatim>\<open>time.time()\<close>,
  taken here as real numbers of seconds; every function that reads the clock in the
  source takes the reading as an argument, so a run is determined by its packets and
  the readings the clock gave.

  A Python \<^verbatim>\<open>dict\<close> is an association list in insertion order: \<^const>\<open>map_of\<close> is
  the lookup, \<^const>\<open>AList.update\<close> is \<^verbatim>\<open>d[k] = v\<close> (in place for a known key, at
  the end for a new one) and \<^const>\<open>AList.delete\<close> is \<^verbatim>\<open>del d[k]\<close>.
\<close>

type_synonym ip_address = string
type_synonym timestamp = real

text \<open>\<^verbatim>\<open>defaultdict(list)[k]\<close> and \<^verbatim>\<open>d.get(k, default)\<close>: the stored value, or the default.\<close>

definition get_default :: "('k \<times> 'v) list \<Rightarrow> 'k \<Rightarrow> 'v \<Rightarrow> 'v" where
  "get_default d k dflt = (case map_of d k of None \<Rightarrow> dflt | Some v \<Rightarrow> v)"

text \<open>Exceptions are values.\<close>

datatype py_error = ValueError string | TypeError string | Scapy_Error

text \<open>
  \<^verbatim>\<open>datetime.fromtimestamp\<close> raises (\<^verbatim>\<open>ValueError\<close>, \<^verbatim>\<open>OverflowError\<close> or \<^verbatim>\<open>OSError\<close>) for
  an instant outside the years 1 to 9999; the bounds are those of UTC. The ISO string it
  is rendered to is kept as the instant.
\<close>

definition fromtimestamp :: "real \<Rightarrow> py_error + timestamp" where
  "fromtimestamp t =
     (if - 62135596800 \<le> t \<and> t < 253402300800 then Inr t
      else Inl (ValueError ''year is out of range''))"

section \<open>Flood Detector: \<^verbatim>\<open>src/Backend/syn_detector.py\<close>\<close>

record SYNDetector =
  threshold :: int
  window_seconds :: real
  syn_packets :: "(ip_address \<times> timestamp list) list"
  syn_blocked_ips :: "(ip_address \<times> timestamp) list"

definition SYNDetector_init :: "int \<Rightarrow> real \<Rightarrow> SYNDetector" where
  "SYNDetector_init thr win =
     \<lparr>threshold = thr, window_seconds = win, syn_packets = [], syn_blocked_ips = []\<rparr>"

text \<open>The stored window of an address: \<^verbatim>\<open>self.syn_packets[src_ip]\<close>.\<close>

definition ip_window :: "SYNDetector \<Rightarrow> ip_address \<Rightarrow> timestamp list" where
  "ip_window d src_ip = get_default (syn_packets d) src_ip []"

definition cleanup_old_packets :: "SYNDetector \<Rightarrow> ip_address \<Rightarrow> timestamp \<Rightarrow> SYNDetector" where
  "cleanup_old_packets d src_ip current_time =
     (let window_start = current_time - window_seconds d
      in d\<lparr>syn_packets :=
             AList.update src_ip
               (filter (\<lambda>timestamp. timestamp \<ge> window_start) (ip_window d src_ip))
               (syn_packets d)\<rparr>)"

record syn_result =
  is_attack :: bool
  source_ip :: ip_address
  packet_count :: nat
  window :: real

definition check_syn_flood ::
  "SYNDetector \<Rightarrow> ip_address \<Rightarrow> timestamp \<Rightarrow> syn_result \<times> SYNDetector" where
  "check_syn_flood d src_ip current_time =
     (let d1 = cleanup_old_packets d src_ip current_time;
          d2 = d1\<lparr>syn_packets :=
                   AList.update src_ip (ip_window d1 src_ip @ [current_time]) (syn_packets d1)\<rparr>;
          count = length (ip_window d2 src_ip)
      in (\<lparr>is_attack = (int count \<ge> threshold d2), source_ip = src_ip,
           packet_count = count, window = window_seconds d2\<rparr>, d2))"

text \<open>
  A sequence of calls, each for an address at a clock reading, in order; the results
  are returned in the same order.
\<close>

fun observe_all ::
  "SYNDetector \<Rightarrow> (ip_address \<times> timestamp) list \<Rightarrow> syn_result list \<times> SYNDetector" where
  "observe_all d [] = ([], d)"
| "observe_all d ((src_ip, t) # rest) =
     (let (r, d1) = check_syn_flood d src_ip t;
          (rs, d2) = observe_all d1 rest
      in (r # rs, d2))"

text \<open>
  Every earlier reading of the list is still inside the window at each later one:
  \<open>t\<^sub>j \<ge> t\<^sub>i - w\<close> for \<open>j < i\<close>.
\<close>

fun within_window :: "real \<Rightarrow> timestamp list \<Rightarrow> bool" where
  "within_window w [] = True"
| "within_window w (t # ts) = ((\<forall>u \<in> set ts. t \<ge> u - w) \<and> within_window w ts)"

text \<open>
  Every reading of the list comes more than \<open>w\<close> seconds after all the ones before it.
\<close>

fun spaced_apart :: "real \<Rightarrow> timestamp list \<Rightarrow> bool" where
  "spaced_apart w [] = True"
| "spaced_apart w (t # ts) = ((\<forall>u \<in> set ts. t + w < u) \<and> spaced_apart w ts)"

text \<open>The readings of one address in a sequence of calls, in order.\<close>

definition times_of :: "ip_address \<Rightarrow> (ip_address \<times> timestamp) list \<Rightarrow> timestamp list" where
  "times_of a evs = map snd (filter (\<lambda>e. fst e = a) evs)"

section \<open>Blocking Manager: \<^verbatim>\<open>src/network_monitoring/backend/firewall_manager.py\<close>\<close>

text \<open>
  A block entry keeps the two instants; the two \<^verbatim>\<open>..._formatted\<close> strings of the source
  are ISO renderings of the same instants and are not stored again.
\<close>

record block_info =
  blocked_at :: timestamp
  unblock_time :: timestamp

record FirewallManager =
  block_duration :: real
  blocked_ips :: "(ip_address \<times> block_info) list"

definition FirewallManager_init :: "real \<Rightarrow> FirewallManager" where
  "FirewallManager_init block_duration_minutes =
     \<lparr>block_duration = block_duration_minutes * 60, blocked_ips = []\<rparr>"

text \<open>
  \<^verbatim>\<open>block_ip\<close>: the entry is built with both instants rendered by
  \<^verbatim>\<open>datetime.fromtimestamp\<close>, first \<open>blocked_at\<close>, then \<open>unblock_time\<close>; when one of them
  cannot be rendered the call raises before anything is stored. The status dict it
  returns repeats the stored entry; the state is returned.
\<close>

definition block_ip ::
  "FirewallManager \<Rightarrow> ip_address \<Rightarrow> timestamp \<Rightarrow> py_error + FirewallManager" where
  "block_ip fw ip current_time =
     (let unblock_at = current_time + block_duration fw
      in case fromtimestamp current_time of
           Inl e \<Rightarrow> Inl e
         | Inr blocked_at_formatted \<Rightarrow>
            (case fromtimestamp unblock_at of
               Inl e \<Rightarrow> Inl e
             | Inr unblock_time_formatted \<Rightarrow>
                 Inr (fw\<lparr>blocked_ips :=
                          AList.update ip
                            \<lparr>blocked_at = current_time, unblock_time = unblock_at\<rparr>
                            (blocked_ips fw)\<rparr>)))"

text \<open>\<^verbatim>\<open>unblock_ip\<close>: the flag is True for status \<^verbatim>\<open>'unblocked'\<close>, False for \<^verbatim>\<open>'not_blocked'\<close>.\<close>

definition unblock_ip :: "FirewallManager \<Rightarrow> ip_address \<Rightarrow> bool \<times> FirewallManager" where
  "unblock_ip fw ip =
     (case map_of (blocked_ips fw) ip of
        Some info \<Rightarrow> (True, fw\<lparr>blocked_ips := AList.delete ip (blocked_ips fw)\<rparr>)
      | None \<Rightarrow> (False, fw))"

definition is_blocked :: "FirewallManager \<Rightarrow> ip_address \<Rightarrow> timestamp \<Rightarrow> bool \<times> FirewallManager" where
  "is_blocked fw ip now =
     (case map_of (blocked_ips fw) ip of
        Some info \<Rightarrow>
          if now \<ge> unblock_time info
          then (False, fw\<lparr>blocked_ips := AList.delete ip (blocked_ips fw)\<rparr>)
          else (True, fw)
      | None \<Rightarrow> (False, fw))"

text \<open>Python's \<^verbatim>\<open>int(x)\<close> on a float truncates towards zero.\<close>

definition py_int :: "real \<Rightarrow> int" where
  "py_int x = (if x \<ge> 0 then \<lfloor>x\<rfloor> else \<lceil>x\<rceil>)"

record active_block =
  ab_ip_address :: ip_address
  ab_blocked_at :: timestamp
  ab_unblock_at :: timestamp
  remaining_seconds :: int

definition get_blocked_ips ::
  "FirewallManager \<Rightarrow> timestamp \<Rightarrow> active_block list \<times> FirewallManager" where
  "get_blocked_ips fw current_time =
     (let expired_ips =
            map fst (filter (\<lambda>(ip, info). current_time \<ge> unblock_time info) (blocked_ips fw));
          active_blocks =
            map (\<lambda>(ip, info).
                   \<lparr>ab_ip_address = ip, ab_blocked_at = blocked_at info,
                    ab_unblock_at = unblock_time info,
                    remaining_seconds = py_int (unblock_time info - current_time)\<rparr>)
              (filter (\<lambda>(ip, info). \<not> current_time \<ge> unblock_time info) (blocked_ips fw))
      in (active_blocks,
          fw\<lparr>blocked_ips := foldl (\<lambda>al ip. AList.delete ip al) (blocked_ips fw) expired_ips\<rparr>))"

section \<open>Decoded packets\<close>

text \<open>
  A packet as the code sees a Scapy packet: its capture time, its length and the layers
  it holds (\<^verbatim>\<open>LAYER in packet\<close> is \<open>\<noteq> None\<close>). Only the fields that decide a branch, a
  key or a counter are kept; the link-layer fields and the header fields that the
  batch path only copies into its output record are left out.
\<close>

record ip_layer =
  src :: ip_address
  dst :: ip_address

record tcp_layer =
  tcp_sport :: int
  tcp_dport :: int
  flags :: int

record udp_layer =
  udp_sport :: int
  udp_dport :: int

record arp_layer =
  psrc :: ip_address
  pdst :: ip_address

record packet =
  pkt_time :: real
  pkt_len :: nat
  IP :: "ip_layer option"
  TCP :: "tcp_layer option"
  UDP :: "udp_layer option"
  ICMP :: "unit option"
  ARP :: "arp_layer option"

section \<open>Traffic Analyzer: \<^verbatim>\<open>src/network_monitoring/backend/packet_analyzer.py\<close>\<close>

record connection_info =
  conn_dst_ip :: ip_address
  conn_timestamp :: timestamp
  conn_protocol :: string

record attack_info =
  classification :: string
  confidence :: int
  description :: string

text \<open>
  \<^verbatim>\<open>AttackClassifier._default_classification\<close>, the static table used when the remote
  model is absent or fails.
\<close>

definition default_classification :: "string \<Rightarrow> ip_address \<Rightarrow> attack_info" where
  "default_classification attack_type ip =
     (if attack_type = ''SYN Flood'' then
        \<lparr>classification = ''Denial of Service (DoS) - SYN Flood'', confidence = 90,
         description = ''SYN Flood attack detected from '' @ ip @
           ''. Multiple SYN packets sent in short time window indicating TCP handshake abuse.''\<rparr>
      else if attack_type = ''UDP Flood'' then
        \<lparr>classification = ''Denial of Service (DoS) - UDP Flood'', confidence = 85,
         description = ''UDP Flood attack detected from '' @ ip @
           ''. High volume of UDP packets targeting network services.''\<rparr>
      else
        \<lparr>classification = ''Suspicious Network Activity'', confidence = 70,
         description = ''Detected '' @ attack_type @ '' from '' @ ip\<rparr>)"

text \<open>
  The record handed to \<^verbatim>\<open>log_attack\<close>. \<^verbatim>\<open>packet_details\<close> (size and TCP flags) is only
  present for a SYN flood.
\<close>

record attack_log =
  log_timestamp :: timestamp
  attack_type :: string
  log_source_ip :: ip_address
  destination_ip :: ip_address
  log_info :: attack_info
  packet_details :: "(nat \<times> int) option"

text \<open>
  \<^verbatim>\<open>FirestoreLogger.log_attack\<close> (\<^verbatim>\<open>firestore_logger.py\<close>) writes to the store or to a
  file, swallowing every I/O error, and then appends the record to \<^verbatim>\<open>local_logs\<close>; it
  never raises. The logger is modelled by \<^verbatim>\<open>local_logs\<close>.
\<close>

definition log_attack :: "attack_log list \<Rightarrow> attack_log \<Rightarrow> attack_log list" where
  "log_attack local_logs attack_data = local_logs @ [attack_data]"

text \<open>
  The clock readings taken while one packet is processed: \<^verbatim>\<open>datetime.now()\<close> in
  \<^verbatim>\<open>_process_packet\<close>, \<^verbatim>\<open>time.time()\<close> in \<^verbatim>\<open>check_syn_flood\<close> and in \<^verbatim>\<open>block_ip\<close>.
\<close>

record ticks =
  t_seen :: timestamp
  t_check :: timestamp
  t_block :: timestamp

text \<open>
  \<^verbatim>\<open>classify_attack\<close> may ask a remote model; it catches every error and falls back to
  the static table, so it always returns. It is a field of the analyzer.
\<close>

record PacketAnalyzer =
  syn_detector :: SYNDetector
  attack_classifier :: "string \<Rightarrow> ip_address \<Rightarrow> packet \<Rightarrow> attack_info"
  firewall_manager :: FirewallManager
  firestore_logger :: "attack_log list"
  connections :: "(ip_address \<times> connection_info list) list"
  analyzer_packet_count :: nat
  attack_count :: nat

definition PacketAnalyzer_init ::
  "SYNDetector \<Rightarrow> (string \<Rightarrow> ip_address \<Rightarrow> packet \<Rightarrow> attack_info) \<Rightarrow> FirewallManager \<Rightarrow>
   attack_log list \<Rightarrow> PacketAnalyzer" where
  "PacketAnalyzer_init det cls fw logger =
     \<lparr>syn_detector = det, attack_classifier = cls, firewall_manager = fw,
      firestore_logger = logger, connections = [], analyzer_packet_count = 0,
      attack_count = 0\<rparr>"

record formatted_connection =
  fc_source :: ip_address
  fc_destination :: ip_address
  fc_timestamp :: timestamp
  fc_protocol :: string

record analysis_results =
  res_total_packets :: nat
  analyzed_packets :: nat
  res_attacks_detected :: nat
  res_blocked_ips :: "ip_address list"
  res_connections :: "formatted_connection list"
  attack_types :: "(string \<times> nat) list"

definition get_protocol :: "packet \<Rightarrow> string" where
  "get_protocol p =
     (if TCP p \<noteq> None then ''TCP''
      else if UDP p \<noteq> None then ''UDP''
      else if ICMP p \<noteq> None then ''ICMP''
      else ''OTHER'')"

definition detect_udp_flood :: "PacketAnalyzer \<Rightarrow> ip_address \<Rightarrow> bool" where
  "detect_udp_flood a src_ip =
     (let recent_packets =
            filter (\<lambda>p. conn_protocol p = ''UDP'') (get_default (connections a) src_ip [])
      in length recent_packets > 10)"

text \<open>The test of line 63: \<^verbatim>\<open>TCP in packet and packet[TCP].flags == 0x02\<close>.\<close>

definition tcp_syn_test :: "packet \<Rightarrow> bool" where
  "tcp_syn_test p = (case TCP p of None \<Rightarrow> False | Some t \<Rightarrow> flags t = 2)"

definition count_attack_type :: "string \<Rightarrow> analysis_results \<Rightarrow> analysis_results" where
  "count_attack_type ty results =
     results\<lparr>res_attacks_detected := res_attacks_detected results + 1,
             attack_types :=
               AList.update ty (get_default (attack_types results) ty 0 + 1)
                 (attack_types results)\<rparr>"

text \<open>
  \<^verbatim>\<open>_process_packet\<close>. Without an IP layer the first statement raises, the handler
  prints and nothing has changed. With one, the detector, the classifier and the logger
  always return; \<^verbatim>\<open>block_ip\<close> may raise, and then the handler prints and the source is
  not put on the run's blocked list, while what was counted and logged before stays.
\<close>

definition process_packet ::
  "PacketAnalyzer \<Rightarrow> packet \<Rightarrow> ticks \<Rightarrow> analysis_results \<Rightarrow> analysis_results \<times> PacketAnalyzer" where
  "process_packet a packet tk results =
     (case IP packet of
        None \<Rightarrow> (results, a)
      | Some ipl \<Rightarrow>
         (let src_ip = src ipl;
              dst_ip = dst ipl;
              timestamp = t_seen tk;
              results1 = results\<lparr>analyzed_packets := analyzed_packets results + 1\<rparr>;
              a1 = a\<lparr>connections :=
                       AList.update src_ip
                         (get_default (connections a) src_ip [] @
                            [\<lparr>conn_dst_ip = dst_ip, conn_timestamp = timestamp,
                              conn_protocol = get_protocol packet\<rparr>])
                         (connections a)\<rparr>
          in if tcp_syn_test packet then
               (let (syn_res, det) = check_syn_flood (syn_detector a1) src_ip (t_check tk);
                    a2 = a1\<lparr>syn_detector := det\<rparr>
                in if is_attack syn_res then
                     (let a3 = a2\<lparr>attack_count := attack_count a2 + 1\<rparr>;
                          results2 = count_attack_type ''SYN Flood'' results1;
                          info = attack_classifier a3 ''SYN Flood'' src_ip packet;
                          a4 = a3\<lparr>firestore_logger :=
                                     log_attack (firestore_logger a3)
                                       \<lparr>log_timestamp = timestamp, attack_type = ''SYN Flood'',
                                        log_source_ip = src_ip, destination_ip = dst_ip,
                                        log_info = info,
                                        packet_details =
                                          Some (pkt_len packet,
                                                case TCP packet of Some t \<Rightarrow> flags t
                                                | None \<Rightarrow> 0)\<rparr>\<rparr>
                      in if src_ip \<notin> set (res_blocked_ips results2) then
                           (case block_ip (firewall_manager a4) src_ip (t_block tk) of
                              Inr fw \<Rightarrow>
                                (results2\<lparr>res_blocked_ips :=
                                            res_blocked_ips results2 @ [src_ip]\<rparr>,
                                 a4\<lparr>firewall_manager := fw\<rparr>)
                            | Inl e \<Rightarrow> (results2, a4))
                         else (results2, a4))
                   else (results1, a2))
             else if UDP packet \<noteq> None then
               (if detect_udp_flood a1 src_ip then
                  (let a3 = a1\<lparr>attack_count := attack_count a1 + 1\<rparr>;
                       results2 = count_attack_type ''UDP Flood'' results1;
                       info = attack_classifier a3 ''UDP Flood'' src_ip packet;
                       a4 = a3\<lparr>firestore_logger :=
                                  log_attack (firestore_logger a3)
                                    \<lparr>log_timestamp = timestamp, attack_type = ''UDP Flood'',
                                     log_source_ip = src_ip, destination_ip = dst_ip,
                                     log_info = info, packet_details = None\<rparr>\<rparr>
                   in (results2, a4))
                else (results1, a1))
             else (results1, a1)))"

text \<open>The loop of \<^verbatim>\<open>analyze_pcap\<close>: packets without an IP layer are passed over.\<close>

fun analyze_packets ::
  "PacketAnalyzer \<Rightarrow> (packet \<times> ticks) list \<Rightarrow> analysis_results \<Rightarrow>
   analysis_results \<times> PacketAnalyzer" where
  "analyze_packets a [] results = (results, a)"
| "analyze_packets a ((packet, tk) # rest) results =
     (if IP packet \<noteq> None then
        (let (results1, a1) = process_packet a packet tk results
         in analyze_packets a1 rest results1)
      else analyze_packets a rest results)"



section \<open>Batch Aggregator: \<^verbatim>\<open>src/network_monitoring/backend/etl_pipeline.py\<close>\<close>

record etl_stats =
  total_packets :: nat
  processed_packets :: nat
  failed_packets :: nat
  connections_created :: nat
  attacks_detected :: nat
  start_time :: "timestamp option"
  end_time :: "timestamp option"

text \<open>
  The sink behind the pipeline (\<^verbatim>\<open>self.firestore_logger\<close>) is outside the program: whether
  the \<open>n\<close>-th batch commit to a collection succeeds, whether the local fallback file can
  be written, and whether \<^verbatim>\<open>log_attack\<close> returns for the \<open>n\<close>-th attack are inputs.
\<close>

record sink =
  use_firestore :: bool
  commit_ok :: "string \<Rightarrow> nat \<Rightarrow> bool"
  file_ok :: "string \<Rightarrow> nat \<Rightarrow> bool"
  log_attack_ok :: "nat \<Rightarrow> bool"

datatype sink_outcome = Committed | Saved_To_File | Dropped

text \<open>
  The pipeline object: its counters, its sink, and what each write came to (collection,
  number of records, outcome), in order.
\<close>

record ETLPipeline =
  stats :: etl_stats
  logger :: sink
  written :: "(string \<times> nat \<times> sink_outcome) list"

definition ETLPipeline_init :: "sink \<Rightarrow> ETLPipeline" where
  "ETLPipeline_init sk =
     \<lparr>stats = \<lparr>total_packets = 0, processed_packets = 0, failed_packets = 0,
               connections_created = 0, attacks_detected = 0,
               start_time = None, end_time = None\<rparr>,
      logger = sk, written = []\<rparr>"

subsection \<open>Extract\<close>

text \<open>
  What the file system holds at the source path: nothing, a regular file, or a directory
  with its entries in \<^verbatim>\<open>os.listdir\<close> order. A file is given by what \<^verbatim>\<open>rdpcap\<close> makes of
  it: an error or the packets.
\<close>

datatype source_path =
  No_Such_Path
  | File_Path "py_error + packet list"
  | Dir_Path "(string \<times> (py_error + packet list)) list"

definition endswith :: "string \<Rightarrow> string \<Rightarrow> bool" where
  "endswith s suf = (length suf \<le> length s \<and> drop (length s - length suf) s = suf)"

definition is_capture_name :: "string \<Rightarrow> bool" where
  "is_capture_name f = (endswith f ''.pcap'' \<or> endswith f ''.pcapng'')"

text \<open>The loop over the capture files of a directory; the first read error ends it.\<close>

fun read_all :: "(py_error + packet list) list \<Rightarrow> py_error + packet list" where
  "read_all [] = Inr []"
| "read_all (r # rs) =
     (case r of
        Inl e \<Rightarrow> Inl e
      | Inr file_packets \<Rightarrow>
          (case read_all rs of Inl e \<Rightarrow> Inl e | Inr others \<Rightarrow> Inr (file_packets @ others)))"

text \<open>\<^verbatim>\<open>extract\<close> (the name is taken by a command of the prover).\<close>

definition extract_packets ::
  "ETLPipeline \<Rightarrow> string \<Rightarrow> source_path \<Rightarrow> timestamp \<Rightarrow> (py_error + packet list) \<times> ETLPipeline" where
  "extract_packets p source node now =
     (let p1 = p\<lparr>stats := (stats p)\<lparr>start_time := Some now\<rparr>\<rparr>;
          res =
            (case node of
               File_Path content \<Rightarrow>
                 if is_capture_name source then content
                 else Inl (ValueError (''Unsupported file format: '' @ source))
             | Dir_Path entries \<Rightarrow>
                 (let pcap_files = filter (\<lambda>(f, content). is_capture_name f) entries
                  in if pcap_files = [] then
                       Inl (ValueError (''No PCAP files found in directory: '' @ source))
                     else read_all (map snd pcap_files))
             | No_Such_Path \<Rightarrow> Inl (ValueError (''Source path does not exist: '' @ source)))
      in case res of
           Inl e \<Rightarrow> (Inl e, p1)
         | Inr packets \<Rightarrow>
             (Inr packets, p1\<lparr>stats := (stats p1)\<lparr>total_packets := length packets\<rparr>\<rparr>))"

subsection \<open>Transform\<close>

record tcp_flag_bits =
  flag_syn :: bool
  flag_ack :: bool
  flag_fin :: bool
  flag_rst :: bool
  flag_psh :: bool
  flag_urg :: bool

text \<open>The dict built by \<^verbatim>\<open>_transform_packet\<close>; an absent key is \<open>None\<close>.\<close>

record packet_data =
  packet_index :: nat
  pd_timestamp :: timestamp
  packet_size :: nat
  src_ip :: "ip_address option"
  dst_ip :: "ip_address option"
  protocol :: string
  src_port :: "int option"
  dst_port :: "int option"
  tcp_flags :: "tcp_flag_bits option"

text \<open>
  \<^verbatim>\<open>_transform_packet\<close>: any exception inside is caught there and the result is \<^verbatim>\<open>None\<close>.
\<close>

definition transform_packet :: "packet \<Rightarrow> nat \<Rightarrow> packet_data option" where
  "transform_packet packet index =
     (case fromtimestamp (pkt_time packet) of
        Inl e \<Rightarrow> None
      | Inr ts \<Rightarrow>
         (let pd0 = \<lparr>packet_index = index, pd_timestamp = ts, packet_size = pkt_len packet,
                     src_ip = None, dst_ip = None, protocol = [], src_port = None,
                     dst_port = None, tcp_flags = None\<rparr>
          in Some
              (case IP packet of
                 Some ipl \<Rightarrow>
                   (let pd1 = pd0\<lparr>src_ip := Some (src ipl), dst_ip := Some (dst ipl)\<rparr>
                    in case TCP packet of
                         Some t \<Rightarrow>
                           pd1\<lparr>protocol := ''TCP'', src_port := Some (tcp_sport t),
                               dst_port := Some (tcp_dport t),
                               tcp_flags :=
                                 Some \<lparr>flag_syn = (flags t AND 2 \<noteq> 0),
                                       flag_ack = (flags t AND 16 \<noteq> 0),
                                       flag_fin = (flags t AND 1 \<noteq> 0),
                                       flag_rst = (flags t AND 4 \<noteq> 0),
                                       flag_psh = (flags t AND 8 \<noteq> 0),
                                       flag_urg = (flags t AND 32 \<noteq> 0)\<rparr>\<rparr>
                       | None \<Rightarrow>
                          (case UDP packet of
                             Some u \<Rightarrow>
                               pd1\<lparr>protocol := ''UDP'', src_port := Some (udp_sport u),
                                   dst_port := Some (udp_dport u)\<rparr>
                           | None \<Rightarrow>
                              (case ICMP packet of
                                 Some i \<Rightarrow> pd1\<lparr>protocol := ''ICMP''\<rparr>
                               | None \<Rightarrow>
                                  (case ARP packet of
                                     Some ar \<Rightarrow>
                                       pd1\<lparr>protocol := ''ARP'', src_ip := Some (psrc ar),
                                           dst_ip := Some (pdst ar)\<rparr>
                                   | None \<Rightarrow> pd1\<lparr>protocol := ''OTHER''\<rparr>))))
               | None \<Rightarrow> pd0\<lparr>protocol := ''NON-IP''\<rparr>)))"

record ip_stat =
  stat_packet_count :: nat
  bytes_sent :: nat
  bytes_received :: nat
  protocols :: "string set"
  ports :: "int set"
  first_seen :: "timestamp option"
  last_seen :: "timestamp option"
  syn_packet_count :: "nat option"
  udp_packet_count :: "nat option"

datatype direction = Src_Dir | Dst_Dir

definition update_ip_stats ::
  "(ip_address \<times> ip_stat) list \<Rightarrow> packet_data \<Rightarrow> direction \<Rightarrow> (ip_address \<times> ip_stat) list" where
  "update_ip_stats ip_stats pd dir =
     (case (case dir of Src_Dir \<Rightarrow> src_ip pd | Dst_Dir \<Rightarrow> dst_ip pd) of
        None \<Rightarrow> ip_stats
      | Some ip_key \<Rightarrow>
          if ip_key = [] then ip_stats
          else
           (let st0 = (case map_of ip_stats ip_key of
                         Some st \<Rightarrow> st
                       | None \<Rightarrow>
                           \<lparr>stat_packet_count = 0, bytes_sent = 0, bytes_received = 0,
                            protocols = {}, ports = {},
                            first_seen = Some (pd_timestamp pd),
                            last_seen = Some (pd_timestamp pd),
                            syn_packet_count = None, udp_packet_count = None\<rparr>);
                st1 = st0\<lparr>stat_packet_count := stat_packet_count st0 + 1\<rparr>;
                st2 = (case dir of
                         Src_Dir \<Rightarrow> st1\<lparr>bytes_sent := bytes_sent st1 + packet_size pd\<rparr>
                       | Dst_Dir \<Rightarrow> st1\<lparr>bytes_received := bytes_received st1 + packet_size pd\<rparr>);
                st3 = st2\<lparr>protocols := insert (protocol pd) (protocols st2)\<rparr>;
                st4 = (case (case dir of Src_Dir \<Rightarrow> src_port pd | Dst_Dir \<Rightarrow> dst_port pd) of
                         Some port \<Rightarrow> st3\<lparr>ports := insert port (ports st3)\<rparr>
                       | None \<Rightarrow> st3);
                st5 = st4\<lparr>last_seen := Some (pd_timestamp pd)\<rparr>;
                st6 = (if first_seen st5 = None
                       then st5\<lparr>first_seen := Some (pd_timestamp pd)\<rparr> else st5)
            in AList.update ip_key st6 ip_stats))"

definition get_connection_key :: "ip_address \<Rightarrow> ip_address \<Rightarrow> string \<Rightarrow> string" where
  "get_connection_key s d proto = s @ '':'' @ d @ '':'' @ proto"

record connection_record =
  cr_src_ip :: ip_address
  cr_dst_ip :: ip_address
  cr_protocol :: string
  cr_packet_count :: nat
  bytes_transferred :: nat
  cr_first_seen :: timestamp
  cr_last_seen :: timestamp
  cr_src_port :: "int option"
  cr_dst_port :: "int option"

record attack_record =
  ar_attack_type :: string
  ar_source_ip :: ip_address
  ar_destination_ip :: "ip_address option"
  severity :: string
  ar_packet_count :: nat
  ar_timestamp :: timestamp
  ar_port :: "int option"
  ar_flags :: "tcp_flag_bits option"

text \<open>\<^verbatim>\<open>_detect_attacks\<close>: the attack record, if any, and the statistics table it updated.\<close>

definition detect_attacks ::
  "packet_data \<Rightarrow> (ip_address \<times> ip_stat) list \<Rightarrow>
   attack_record option \<times> (ip_address \<times> ip_stat) list" where
  "detect_attacks pd ip_stats =
     (case src_ip pd of
        None \<Rightarrow> (None, ip_stats)
      | Some sip \<Rightarrow>
          if sip = [] then (None, ip_stats)
          else if protocol pd = ''TCP'' then
            (if (case tcp_flags pd of Some f \<Rightarrow> flag_syn f \<and> \<not> flag_ack f | None \<Rightarrow> False) then
               (case map_of ip_stats sip of
                  Some st \<Rightarrow>
                    (let syn_count = (case syn_packet_count st of None \<Rightarrow> 0 | Some c \<Rightarrow> c) + 1;
                         ip_stats1 =
                           AList.update sip (st\<lparr>syn_packet_count := Some syn_count\<rparr>) ip_stats
                     in if syn_count > 5 then
                          (Some \<lparr>ar_attack_type = ''SYN Flood'', ar_source_ip = sip,
                                 ar_destination_ip = dst_ip pd, severity = ''high'',
                                 ar_packet_count = syn_count, ar_timestamp = pd_timestamp pd,
                                 ar_port = dst_port pd, ar_flags = tcp_flags pd\<rparr>, ip_stats1)
                        else (None, ip_stats1))
                | None \<Rightarrow> (None, ip_stats))
             else (None, ip_stats))
          else if protocol pd = ''UDP'' then
            (case map_of ip_stats sip of
               Some st \<Rightarrow>
                 (let udp_count = (case udp_packet_count st of None \<Rightarrow> 0 | Some c \<Rightarrow> c) + 1;
                      ip_stats1 =
                        AList.update sip (st\<lparr>udp_packet_count := Some udp_count\<rparr>) ip_stats
                  in if udp_count > 100 then
                       (Some \<lparr>ar_attack_type = ''UDP Flood'', ar_source_ip = sip,
                              ar_destination_ip = dst_ip pd, severity = ''medium'',
                              ar_packet_count = udp_count, ar_timestamp = pd_timestamp pd,
                              ar_port = dst_port pd, ar_flags = None\<rparr>, ip_stats1)
                     else (None, ip_stats1))
             | None \<Rightarrow> (None, ip_stats))
          else (None, ip_stats))"

text \<open>The variables of the loop in \<^verbatim>\<open>transform\<close>, with the pipeline's counters.\<close>

record transform_state =
  ts_packets :: "packet_data list"
  connections_map :: "(string \<times> connection_record) list"
  ts_attacks :: "attack_record list"
  ts_ip_stats :: "(ip_address \<times> ip_stat) list"
  ts_stats :: etl_stats

definition track_connection :: "transform_state \<Rightarrow> packet_data \<Rightarrow> transform_state" where
  "track_connection s pd =
     (case (src_ip pd, dst_ip pd) of
        (Some sip, Some dip) \<Rightarrow>
          (let conn_key = get_connection_key sip dip (protocol pd);
               s1 = (if map_of (connections_map s) conn_key = None then
                       s\<lparr>connections_map :=
                            AList.update conn_key
                              \<lparr>cr_src_ip = sip, cr_dst_ip = dip, cr_protocol = protocol pd,
                               cr_packet_count = 0, bytes_transferred = 0,
                               cr_first_seen = pd_timestamp pd, cr_last_seen = pd_timestamp pd,
                               cr_src_port = src_port pd, cr_dst_port = dst_port pd\<rparr>
                              (connections_map s),
                          ts_stats := (ts_stats s)\<lparr>connections_created :=
                                                    connections_created (ts_stats s) + 1\<rparr>\<rparr>
                     else s)
           in case map_of (connections_map s1) conn_key of
                Some c \<Rightarrow>
                  s1\<lparr>connections_map :=
                       AList.update conn_key
                         (c\<lparr>cr_packet_count := cr_packet_count c + 1,
                            bytes_transferred := bytes_transferred c + packet_size pd,
                            cr_last_seen := pd_timestamp pd\<rparr>)
                         (connections_map s1)\<rparr>
              | None \<Rightarrow> s1)
      | _ \<Rightarrow> s)"

text \<open>
  One turn of the loop. A packet that \<^verbatim>\<open>_transform_packet\<close> gave up on (\<^verbatim>\<open>None\<close>) fails
  the test \<^verbatim>\<open>if packet_data:\<close> and the turn ends with no counter touched. The statements
  after a successful decoding work on the record just built and do not raise, so the
  handler that counts \<^verbatim>\<open>failed_packets\<close> is not entered.
\<close>

definition transform_step :: "transform_state \<Rightarrow> packet \<Rightarrow> nat \<Rightarrow> transform_state" where
  "transform_step s packet idx =
     (case transform_packet packet idx of
        None \<Rightarrow> s
      | Some pd \<Rightarrow>
         (let s1 = s\<lparr>ts_packets := ts_packets s @ [pd],
                     ts_stats := (ts_stats s)\<lparr>processed_packets :=
                                               processed_packets (ts_stats s) + 1\<rparr>\<rparr>;
              s2 = s1\<lparr>ts_ip_stats := update_ip_stats (ts_ip_stats s1) pd Src_Dir\<rparr>;
              s3 = s2\<lparr>ts_ip_stats := update_ip_stats (ts_ip_stats s2) pd Dst_Dir\<rparr>;
              s4 = track_connection s3 pd;
              (attack_data, ip_stats1) = detect_attacks pd (ts_ip_stats s4);
              s5 = s4\<lparr>ts_ip_stats := ip_stats1\<rparr>
          in case attack_data of
               Some attack \<Rightarrow>
                 s5\<lparr>ts_attacks := ts_attacks s5 @ [attack],
                    ts_stats := (ts_stats s5)\<lparr>attacks_detected :=
                                               attacks_detected (ts_stats s5) + 1\<rparr>\<rparr>
             | None \<Rightarrow> s5))"

fun transform_loop :: "transform_state \<Rightarrow> packet list \<Rightarrow> nat \<Rightarrow> transform_state" where
  "transform_loop s [] idx = s"
| "transform_loop s (packet # rest) idx = transform_loop (transform_step s packet idx) rest (Suc idx)"

record transformed_data =
  td_packets :: "packet_data list"
  td_connections :: "connection_record list"
  td_attacks :: "attack_record list"
  ip_statistics :: "(ip_address \<times> ip_stat) list"

definition transform :: "ETLPipeline \<Rightarrow> packet list \<Rightarrow> transformed_data \<times> ETLPipeline" where
  "transform p packets =
     (let s = transform_loop
                \<lparr>ts_packets = [], connections_map = [], ts_attacks = [], ts_ip_stats = [],
                 ts_stats = stats p\<rparr> packets 0
      in (\<lparr>td_packets = ts_packets s, td_connections = map snd (connections_map s),
           td_attacks = ts_attacks s, ip_statistics = ts_ip_stats s\<rparr>,
          p\<lparr>stats := ts_stats s\<rparr>))"

subsection \<open>Load\<close>

text \<open>\<^verbatim>\<open>range(0, n, step)\<close>: a zero step raises, a negative one gives no index.\<close>

definition py_range :: "nat \<Rightarrow> int \<Rightarrow> py_error + nat list" where
  "py_range n step =
     (if step = 0 then Inl (ValueError ''range() arg 3 must not be zero'')
      else if step < 0 then Inr []
      else Inr (map (\<lambda>k. k * nat step) [0..<(n + nat step - 1) div nat step]))"

text \<open>
  \<^verbatim>\<open>_load_batch\<close>: a failed commit falls back to a local file, and a failed file write is
  only printed; it never raises.
\<close>

definition load_batch :: "sink \<Rightarrow> string \<Rightarrow> nat \<Rightarrow> sink_outcome" where
  "load_batch sk collection n =
     (if \<not> use_firestore sk then
        (if file_ok sk collection n then Saved_To_File else Dropped)
      else if commit_ok sk collection n then Committed
      else if file_ok sk collection n then Saved_To_File
      else Dropped)"

text \<open>
  The batch loop over one collection: the sizes of the batches written, with their
  outcomes, or the error of \<^verbatim>\<open>range\<close>. An empty list is skipped before \<^verbatim>\<open>range\<close> is
  called.
\<close>

definition load_collection ::
  "sink \<Rightarrow> string \<Rightarrow> 'a list \<Rightarrow> int \<Rightarrow> py_error + (string \<times> nat \<times> sink_outcome) list" where
  "load_collection sk collection records batch_size =
     (if records = [] then Inr []
      else case py_range (length records) batch_size of
             Inl e \<Rightarrow> Inl e
           | Inr starts \<Rightarrow>
               Inr (map (\<lambda>(n, i).
                          (collection, length (take (nat batch_size) (drop i records)),
                           load_batch sk collection n))
                      (zip [0..<length starts] starts)))"

text \<open>\<^verbatim>\<open>_load_statistics\<close>: no fallback after a failed store write; it never raises.\<close>

definition load_statistics :: "sink \<Rightarrow> sink_outcome" where
  "load_statistics sk =
     (if \<not> use_firestore sk then
        (if file_ok sk ''ip_statistics'' 0 then Saved_To_File else Dropped)
      else if commit_ok sk ''ip_statistics'' 0 then Committed
      else Dropped)"

record load_stats =
  packets_loaded :: nat
  connections_loaded :: nat
  attacks_loaded :: nat
  errors :: nat

text \<open>
  \<^verbatim>\<open>load\<close>. After the writes it stores the end time and subtracts the start time from
  it, which raises when \<^verbatim>\<open>extract\<close> has not set one.
\<close>

definition load ::
  "ETLPipeline \<Rightarrow> transformed_data \<Rightarrow> int \<Rightarrow> timestamp \<Rightarrow> (py_error + load_stats) \<times> ETLPipeline" where
  "load p td batch_size now =
     (case load_collection (logger p) ''packets'' (td_packets td) batch_size of
        Inl e \<Rightarrow> (Inl e, p)
      | Inr pw \<Rightarrow>
         (let p1 = p\<lparr>written := written p @ pw\<rparr>
          in case load_collection (logger p) ''connections'' (td_connections td) batch_size of
               Inl e \<Rightarrow> (Inl e, p1)
             | Inr cw \<Rightarrow>
                (let p2 = p1\<lparr>written := written p1 @ cw\<rparr>;
                     oks = filter (log_attack_ok (logger p)) [0..<length (td_attacks td)];
                     p3 = p2\<lparr>written := written p2 @
                                          [(''ip_statistics'', 1, load_statistics (logger p))]\<rparr>;
                     p4 = p3\<lparr>stats := (stats p3)\<lparr>end_time := Some now\<rparr>\<rparr>
                 in case start_time (stats p) of
                      None \<Rightarrow>
                        (Inl (TypeError ''unsupported operand type(s) for -: datetime and NoneType''),
                         p4)
                    | Some started \<Rightarrow>
                        (Inr \<lparr>packets_loaded = sum_list (map (\<lambda>(c, n, out). n) pw),
                              connections_loaded = sum_list (map (\<lambda>(c, n, out). n) cw),
                              attacks_loaded = length oks,
                              errors = length (td_attacks td) - length oks\<rparr>, p4))))"

subsection \<open>Run\<close>

record run_result =
  result_stats :: etl_stats
  result_load :: "load_stats option"
  success :: bool
  run_error :: "py_error option"

definition run ::
  "ETLPipeline \<Rightarrow> string \<Rightarrow> source_path \<Rightarrow> int \<Rightarrow> timestamp \<Rightarrow> timestamp \<Rightarrow>
   run_result \<times> ETLPipeline" where
  "run p source node batch_size t_start t_end =
     (case extract_packets p source node t_start of
        (Inl e, p1) \<Rightarrow>
          (\<lparr>result_stats = stats p1, result_load = None, success = False,
            run_error = Some e\<rparr>, p1)
      | (Inr packets, p1) \<Rightarrow>
         (let (td, p2) = transform p1 packets
          in case load p2 td batch_size t_end of
               (Inl e, p3) \<Rightarrow>
                 (\<lparr>result_stats = stats p3, result_load = None, success = False,
                   run_error = Some e\<rparr>, p3)
             | (Inr ls, p3) \<Rightarrow>
                 (\<lparr>result_stats = stats p3, result_load = Some ls, success = True,
                   run_error = None\<rparr>, p3)))"

section \<open>Inputs of the examples\<close>

definition five_syns :: "(ip_address \<times> timestamp) list" where
  "five_syns = [(''10.0.0.5'', 0), (''10.0.0.9'', 1/4), (''10.0.0.5'', 1/2), (''10.0.0.5'', 1),
                (''10.0.0.5'', 3/2), (''10.0.0.5'', 2)]"

definition slow_syns :: "(ip_address \<times> timestamp) list" where
  "slow_syns = [(''10.0.0.5'', 0), (''10.0.0.5'', 3), (''10.0.0.9'', 4), (''10.0.0.5'', 6)]"

text \<open>The manager after \<^verbatim>\<open>block_ip('10.0.0.5')\<close> at reading 0, block duration ten minutes.\<close>

definition blocked_until_600 :: FirewallManager where
  "blocked_until_600 =
     \<lparr>block_duration = 600,
      blocked_ips = [(''10.0.0.5'', \<lparr>blocked_at = 0, unblock_time = 600\<rparr>)]\<rparr>"


definition udp_flood_log :: "PacketAnalyzer \<Rightarrow> packet \<Rightarrow> ticks \<Rightarrow> attack_log" where
  "udp_flood_log a packet tk =
     \<lparr>log_timestamp = t_seen tk, attack_type = ''UDP Flood'',
      log_source_ip = (case IP packet of Some ipl \<Rightarrow> src ipl | None \<Rightarrow> []),
      destination_ip = (case IP packet of Some ipl \<Rightarrow> dst ipl | None \<Rightarrow> []),
      log_info = attack_classifier a ''UDP Flood''
                   (case IP packet of Some ipl \<Rightarrow> src ipl | None \<Rightarrow> []) packet,
      packet_details = None\<rparr>"

text \<open>
  The UDP packets of a source in a packet sequence, as the connection table records
  them: packets with an IP layer from the source whose protocol is \<^verbatim>\<open>'UDP'\<close>, that is,
  with a UDP layer and no TCP layer.
\<close>

definition udp_seen :: "ip_address \<Rightarrow> (packet \<times> ticks) list \<Rightarrow> nat" where
  "udp_seen s ps =
     length (filter (\<lambda>(p, tk). (case IP p of Some ipl \<Rightarrow> src ipl = s | None \<Rightarrow> False)
                              \<and> TCP p = None \<and> UDP p \<noteq> None) ps)"

definition fresh_analyzer :: PacketAnalyzer where
  "fresh_analyzer =
     PacketAnalyzer_init (SYNDetector_init 5 2) (\<lambda>ty ip p. default_classification ty ip)
       (FirewallManager_init 10) []"

definition tcp_packet :: "ip_address \<Rightarrow> ip_address \<Rightarrow> int \<Rightarrow> packet" where
  "tcp_packet s d fl =
     \<lparr>pkt_time = 0, pkt_len = 40, IP = Some \<lparr>src = s, dst = d\<rparr>,
      TCP = Some \<lparr>tcp_sport = 1024, tcp_dport = 80, flags = fl\<rparr>,
      UDP = None, ICMP = None, ARP = None\<rparr>"

definition udp_packet :: "ip_address \<Rightarrow> ip_address \<Rightarrow> packet" where
  "udp_packet s d =
     \<lparr>pkt_time = 0, pkt_len = 28, IP = Some \<lparr>src = s, dst = d\<rparr>, TCP = None,
      UDP = Some \<lparr>udp_sport = 1024, udp_dport = 53\<rparr>, ICMP = None, ARP = None\<rparr>"

definition at_time :: "timestamp \<Rightarrow> ticks" where
  "at_time t = \<lparr>t_seen = t, t_check = t, t_block = t\<rparr>"

definition no_results :: analysis_results where
  "no_results =
     \<lparr>res_total_packets = 0, analyzed_packets = 0, res_attacks_detected = 0,
      res_blocked_ips = [], res_connections = [], attack_types = []\<rparr>"


text \<open>The entries of a source in the connection table whose protocol is \<^verbatim>\<open>'UDP'\<close>.\<close>

definition udp_entries :: "PacketAnalyzer \<Rightarrow> ip_address \<Rightarrow> nat" where
  "udp_entries a s =
     length (filter (\<lambda>c. conn_protocol c = ''UDP'') (get_default (connections a) s []))"

text \<open>Four readings of one address, the clock having stepped back after the first.\<close>

definition backward_syns :: "(ip_address \<times> timestamp) list" where
  "backward_syns = [(''10.0.0.5'', 100), (''10.0.0.5'', 50), (''10.0.0.5'', 53), (''10.0.0.5'', 56)]"






section \<open>Vocabulary and inputs of the Batch Aggregator properties\<close>

text \<open>A packet whose capture time converts to a date.\<close>

definition decodes :: "packet \<Rightarrow> bool" where
  "decodes pk = (case fromtimestamp (pkt_time pk) of Inr ts \<Rightarrow> True | Inl e \<Rightarrow> False)"

text \<open>A sink that writes local files and never fails, and one where every write fails.\<close>

definition local_sink :: sink where
  "local_sink =
     \<lparr>use_firestore = False, commit_ok = (\<lambda>c n. True), file_ok = (\<lambda>c n. True),
      log_attack_ok = (\<lambda>n. True)\<rparr>"

definition failing_sink :: sink where
  "failing_sink =
     \<lparr>use_firestore = True, commit_ok = (\<lambda>c n. False), file_ok = (\<lambda>c n. False),
      log_attack_ok = (\<lambda>n. False)\<rparr>"

text \<open>A packet stamped \<open>10\<^sup>1\<^sup>2\<close> seconds after the epoch, beyond the year 9999.\<close>

definition late_packet :: packet where
  "late_packet = (tcp_packet ''10.0.0.5'' ''10.0.0.1'' 2)\<lparr>pkt_time := 1000000000000\<rparr>"

text \<open>
  The per-source counters kept in the statistics table by \<^verbatim>\<open>_detect_attacks\<close>; an absent
  entry or key counts as 0.
\<close>

definition syn_counter :: "(ip_address \<times> ip_stat) list \<Rightarrow> ip_address \<Rightarrow> nat" where
  "syn_counter st a =
     (case map_of st a of
        None \<Rightarrow> 0
      | Some e \<Rightarrow> (case syn_packet_count e of None \<Rightarrow> 0 | Some c \<Rightarrow> c))"

definition udp_counter :: "(ip_address \<times> ip_stat) list \<Rightarrow> ip_address \<Rightarrow> nat" where
  "udp_counter st a =
     (case map_of st a of
        None \<Rightarrow> 0
      | Some e \<Rightarrow> (case udp_packet_count e of None \<Rightarrow> 0 | Some c \<Rightarrow> c))"

text \<open>
  The qualifying packets of a source \<open>a\<close>: decoded TCP packets with SYN set and ACK clear,
  and decoded UDP packets (a UDP layer and no TCP layer), with a non-empty IP source.
\<close>

definition syn_without_ack :: "ip_address \<Rightarrow> packet \<Rightarrow> bool" where
  "syn_without_ack a pk =
     (decodes pk \<and> a \<noteq> [] \<and> (case IP pk of Some ipl \<Rightarrow> src ipl = a | None \<Rightarrow> False)
      \<and> (case TCP pk of Some t \<Rightarrow> flags t AND 2 \<noteq> 0 \<and> flags t AND 16 = 0 | None \<Rightarrow> False))"

definition udp_without_tcp :: "ip_address \<Rightarrow> packet \<Rightarrow> bool" where
  "udp_without_tcp a pk =
     (decodes pk \<and> a \<noteq> [] \<and> (case IP pk of Some ipl \<Rightarrow> src ipl = a | None \<Rightarrow> False)
      \<and> TCP pk = None \<and> UDP pk \<noteq> None)"

definition pd_syn_no_ack :: "packet_data \<Rightarrow> bool" where
  "pd_syn_no_ack pd =
     (protocol pd = ''TCP''
      \<and> (case tcp_flags pd of Some f \<Rightarrow> flag_syn f \<and> \<not> flag_ack f | None \<Rightarrow> False))"

text \<open>A capture file holding one SYN packet, and one holding only the late packet.\<close>

definition one_syn_capture :: source_path where
  "one_syn_capture = File_Path (Inr [tcp_packet ''10.0.0.5'' ''10.0.0.1'' 2])"

definition late_capture :: source_path where
  "late_capture = File_Path (Inr [late_packet])"


text \<open>The attack records that \<^verbatim>\<open>_detect_attacks\<close> builds for a packet record and a count.\<close>

definition syn_flood_record :: "packet_data \<Rightarrow> ip_address \<Rightarrow> nat \<Rightarrow> attack_record" where
  "syn_flood_record pd a n =
     \<lparr>ar_attack_type = ''SYN Flood'', ar_source_ip = a, ar_destination_ip = dst_ip pd,
      severity = ''high'', ar_packet_count = n, ar_timestamp = pd_timestamp pd,
      ar_port = dst_port pd, ar_flags = tcp_flags pd\<rparr>"

definition udp_flood_record :: "packet_data \<Rightarrow> ip_address \<Rightarrow> nat \<Rightarrow> attack_record" where
  "udp_flood_record pd a n =
     \<lparr>ar_attack_type = ''UDP Flood'', ar_source_ip = a, ar_destination_ip = dst_ip pd,
      severity = ''medium'', ar_packet_count = n, ar_timestamp = pd_timestamp pd,
      ar_port = dst_port pd, ar_flags = None\<rparr>"

section \<open>Properties of the Flood Detector\<close>


lemma get_default_update_same: "get_default (AList.update k v d) k dflt = v"
  by (simp add: get_default_def update_conv')

lemma get_default_update_other: "k' \<noteq> k \<Longrightarrow> get_default (AList.update k v d) k' dflt = get_default d k' dflt"
  by (simp add: get_default_def update_conv')

lemma ip_window_check_same:
  "ip_window (snd (check_syn_flood d a t)) a =
     filter (\<lambda>x. x \<ge> t - window_seconds d) (ip_window d a) @ [t]"
  by (simp add: check_syn_flood_def cleanup_old_packets_def ip_window_def Let_def
      get_default_update_same)

lemma ip_window_check_other:
  "b \<noteq> a \<Longrightarrow> ip_window (snd (check_syn_flood d a t)) b = ip_window d b"
  by (simp add: check_syn_flood_def cleanup_old_packets_def ip_window_def Let_def
      get_default_update_other)

lemma check_syn_flood_config:
  "threshold (snd (check_syn_flood d a t)) = threshold d"
  "window_seconds (snd (check_syn_flood d a t)) = window_seconds d"
  by (simp_all add: check_syn_flood_def cleanup_old_packets_def Let_def)

lemma check_syn_flood_result:
  "packet_count (fst (check_syn_flood d a t)) = length (ip_window (snd (check_syn_flood d a t)) a)"
  "is_attack (fst (check_syn_flood d a t)) =
     (int (packet_count (fst (check_syn_flood d a t))) \<ge> threshold d)"
  by (simp_all add: check_syn_flood_def cleanup_old_packets_def Let_def)

lemma observe_all_Cons:
  "observe_all d ((a, t) # rest) =
     (fst (check_syn_flood d a t) # fst (observe_all (snd (check_syn_flood d a t)) rest),
      snd (observe_all (snd (check_syn_flood d a t)) rest))"
  by (simp add: Let_def split: prod.splits)

declare observe_all.simps(2) [simp del]

lemma times_of_Cons:
  "times_of a ((b, t) # rest) = (if b = a then t # times_of a rest else times_of a rest)"
  by (simp add: times_of_def)

lemma times_of_Nil: "times_of a [] = []" by (simp add: times_of_def)

lemma observe_all_counts:
  assumes "\<forall>p \<in> set (ip_window d a). \<forall>u \<in> set (times_of a evs). p \<ge> u - window_seconds d"
    and "within_window (window_seconds d) (times_of a evs)"
    and "i < length evs" and "fst (evs ! i) = a"
  shows "packet_count (fst (observe_all d evs) ! i) =
           length (ip_window d a) + length (times_of a (take (Suc i) evs))"
  using assms
proof (induction evs arbitrary: d i)
  case Nil
  then show ?case by simp
next
  case (Cons e rest)
  obtain b t where e: "e = (b, t)" by (cases e)
  let ?d1 = "snd (check_syn_flood d b t)"
  show ?case
  proof (cases i)
    case 0
    with Cons.prems e have ba: "b = a" by simp
    have "filter (\<lambda>x. x \<ge> t - window_seconds d) (ip_window d a) = ip_window d a"
      using Cons.prems(1) e ba by (auto simp: times_of_Cons intro!: filter_True)
    then show ?thesis using 0 e ba
      by (simp add: observe_all_Cons check_syn_flood_result ip_window_check_same times_of_Cons times_of_Nil)
  next
    case (Suc j)
    have j: "j < length rest" "fst (rest ! j) = a" using Cons.prems Suc by simp_all
    have w1: "window_seconds ?d1 = window_seconds d" by (rule check_syn_flood_config)
    show ?thesis
    proof (cases "b = a")
      case True
      let ?da = "snd (check_syn_flood d a t)"
      have ea: "e = (a, t)" using e True by simp
      have wa: "window_seconds ?da = window_seconds d" by (rule check_syn_flood_config)
      have keep: "filter (\<lambda>x. x \<ge> t - window_seconds d) (ip_window d a) = ip_window d a"
        using Cons.prems(1) ea by (auto simp: times_of_Cons intro!: filter_True)
      have win1: "ip_window ?da a = ip_window d a @ [t]"
        using keep by (simp add: ip_window_check_same)
      have p1: "\<forall>p \<in> set (ip_window ?da a). \<forall>u \<in> set (times_of a rest). p \<ge> u - window_seconds ?da"
        using Cons.prems(1,2) ea by (auto simp: win1 wa times_of_Cons)
      have p2: "within_window (window_seconds ?da) (times_of a rest)"
        using Cons.prems(2) ea by (simp add: wa times_of_Cons)
      from Cons.IH[OF p1 p2 j] show ?thesis
        using Suc ea by (simp add: observe_all_Cons win1 times_of_Cons)
    next
      case False
      have win1: "ip_window ?d1 a = ip_window d a"
        using False by (simp add: ip_window_check_other)
      have p1: "\<forall>p \<in> set (ip_window ?d1 a). \<forall>u \<in> set (times_of a rest). p \<ge> u - window_seconds ?d1"
        using Cons.prems(1) e False by (auto simp: win1 w1 times_of_Cons)
      have p2: "within_window (window_seconds ?d1) (times_of a rest)"
        using Cons.prems(2) e False by (simp add: w1 times_of_Cons)
      from Cons.IH[OF p1 p2 j] show ?thesis
        using Suc e False by (simp add: observe_all_Cons win1 times_of_Cons)
    qed
  qed
qed

lemma observe_all_attack:
  "i < length evs \<Longrightarrow>
   is_attack (fst (observe_all d evs) ! i) =
     (int (packet_count (fst (observe_all d evs) ! i)) \<ge> threshold d)"
proof (induction evs arbitrary: d i)
  case Nil
  then show ?case by simp
next
  case (Cons e rest)
  obtain b t where e: "e = (b, t)" by (cases e)
  show ?case
  proof (cases i)
    case 0
    then show ?thesis using e by (simp add: observe_all_Cons check_syn_flood_result)
  next
    case (Suc j)
    then have "j < length rest" using Cons.prems by simp
    from Cons.IH[OF this, of "snd (check_syn_flood d b t)"] show ?thesis
      using Suc e by (simp add: observe_all_Cons check_syn_flood_config)
  qed
qed


lemma observe_all_spaced_count:
  assumes "\<forall>p \<in> set (ip_window d a). \<forall>u \<in> set (times_of a evs). p + window_seconds d < u"
    and "spaced_apart (window_seconds d) (times_of a evs)"
    and "i < length evs" and "fst (evs ! i) = a"
  shows "packet_count (fst (observe_all d evs) ! i) = 1"
  using assms
proof (induction evs arbitrary: d i)
  case Nil
  then show ?case by simp
next
  case (Cons e rest)
  obtain b t where e: "e = (b, t)" by (cases e)
  show ?case
  proof (cases "b = a")
    case True
    let ?da = "snd (check_syn_flood d a t)"
    have ea: "e = (a, t)" using e True by simp
    have wa: "window_seconds ?da = window_seconds d" by (rule check_syn_flood_config)
    have drop: "filter (\<lambda>x. x \<ge> t - window_seconds d) (ip_window d a) = []"
      using Cons.prems(1) ea by (fastforce simp: times_of_Cons filter_empty_conv)
    have win1: "ip_window ?da a = [t]"
      using drop by (simp add: ip_window_check_same)
    show ?thesis
    proof (cases i)
      case 0
      then show ?thesis using ea win1
        by (simp add: observe_all_Cons check_syn_flood_result)
    next
      case (Suc j)
      have j: "j < length rest" "fst (rest ! j) = a" using Cons.prems Suc by simp_all
      have p1: "\<forall>p \<in> set (ip_window ?da a). \<forall>u \<in> set (times_of a rest). p + window_seconds ?da < u"
        using Cons.prems(2) ea by (simp add: win1 wa times_of_Cons)
      have p2: "spaced_apart (window_seconds ?da) (times_of a rest)"
        using Cons.prems(2) ea by (simp add: wa times_of_Cons)
      from Cons.IH[OF p1 p2 j] show ?thesis
        using Suc ea by (simp add: observe_all_Cons)
    qed
  next
    case False
    let ?d1 = "snd (check_syn_flood d b t)"
    have w1: "window_seconds ?d1 = window_seconds d" by (rule check_syn_flood_config)
    have win1: "ip_window ?d1 a = ip_window d a"
      using False by (simp add: ip_window_check_other)
    obtain j where Suc: "i = Suc j"
      using Cons.prems(4) e False by (cases i) auto
    have j: "j < length rest" "fst (rest ! j) = a" using Cons.prems Suc by simp_all
    have p1: "\<forall>p \<in> set (ip_window ?d1 a). \<forall>u \<in> set (times_of a rest). p + window_seconds ?d1 < u"
      using Cons.prems(1) e False by (simp add: win1 w1 times_of_Cons)
    have p2: "spaced_apart (window_seconds ?d1) (times_of a rest)"
      using Cons.prems(2) e False by (simp add: w1 times_of_Cons)
    from Cons.IH[OF p1 p2 j] show ?thesis
      using Suc e by (simp add: observe_all_Cons)
  qed
qed

text \<open>
  Claim C2. A call first drops the stored readings of the address older than
  \<open>now - window_seconds\<close>, then appends \<open>now\<close>; the count it returns is the length of the
  stored window, and \<open>is_attack\<close> says whether the count has reached the threshold. From
  an empty window, while all readings of the address stay inside the window, the \<open>k\<close>-th
  call for the address returns count \<open>k\<close>, so it reports no attack for \<open>k = T - 1\<close> and an
  attack for \<open>k = T\<close>; calls for other addresses in between change nothing.
\<close>

theorem check_syn_flood_threshold_count:
  "(ip_window (snd (check_syn_flood d a now)) a =
      filter (\<lambda>t. t \<ge> now - window_seconds d) (ip_window d a) @ [now]
    \<and> packet_count (fst (check_syn_flood d a now)) =
        length (ip_window (snd (check_syn_flood d a now)) a)
    \<and> is_attack (fst (check_syn_flood d a now)) =
        (int (packet_count (fst (check_syn_flood d a now))) \<ge> threshold d))
   \<and> (ip_window d a = [] \<and> within_window (window_seconds d) (times_of a evs)
        \<and> i < length evs \<and> fst (evs ! i) = a
      \<longrightarrow> packet_count (fst (observe_all d evs) ! i) = length (times_of a (take (Suc i) evs))
        \<and> is_attack (fst (observe_all d evs) ! i) =
            (int (length (times_of a (take (Suc i) evs))) \<ge> threshold d))"
proof (intro conjI impI)
  assume h: "ip_window d a = [] \<and> within_window (window_seconds d) (times_of a evs)
        \<and> i < length evs \<and> fst (evs ! i) = a"
  then have "\<forall>p \<in> set (ip_window d a). \<forall>u \<in> set (times_of a evs). p \<ge> u - window_seconds d"
    by simp
  with h show c: "packet_count (fst (observe_all d evs) ! i) = length (times_of a (take (Suc i) evs))"
    using observe_all_counts[of d a evs i] by simp
  from h show "is_attack (fst (observe_all d evs) ! i) =
            (int (length (times_of a (take (Suc i) evs))) \<ge> threshold d)"
    using observe_all_attack[of i evs d] c by simp
qed (simp_all add: ip_window_check_same check_syn_flood_result)

lemma times_of_five_syns: "times_of ''10.0.0.5'' five_syns = [0, 1/2, 1, 3/2, 2]"
  by (simp add: times_of_def five_syns_def)

text \<open>
  Five observations of one address within two seconds, one of another address in
  between, threshold 5: the fourth is no attack and the fifth is.
\<close>

theorem check_syn_flood_threshold_count_witness:
  "ip_window (SYNDetector_init 5 2) ''10.0.0.5'' = []
   \<and> within_window 2 (times_of ''10.0.0.5'' five_syns)
   \<and> \<not> is_attack (fst (observe_all (SYNDetector_init 5 2) five_syns) ! 4)
   \<and> is_attack (fst (observe_all (SYNDetector_init 5 2) five_syns) ! 5)"
proof -
  have e: "ip_window (SYNDetector_init 5 2) ''10.0.0.5'' = []"
    by (simp add: ip_window_def SYNDetector_init_def get_default_def)
  have w: "within_window (window_seconds (SYNDetector_init 5 2)) (times_of ''10.0.0.5'' five_syns)"
    by (simp add: times_of_five_syns SYNDetector_init_def)
  have l: "length five_syns = 6" by (simp add: five_syns_def)
  have f4: "fst (five_syns ! 4) = ''10.0.0.5''" by (simp add: five_syns_def)
  have f5: "fst (five_syns ! 5) = ''10.0.0.5''" by (simp add: five_syns_def)
  have t4: "length (times_of ''10.0.0.5'' (take (Suc 4) five_syns)) = 4"
    by (simp add: times_of_def five_syns_def)
  have t5: "length (times_of ''10.0.0.5'' (take (Suc 5) five_syns)) = 5"
    by (simp add: times_of_def five_syns_def)
  have thr: "threshold (SYNDetector_init 5 2) = 5" by (simp add: SYNDetector_init_def)
  from check_syn_flood_threshold_count[of "SYNDetector_init 5 2" "''10.0.0.5''" 0 five_syns 4]
    check_syn_flood_threshold_count[of "SYNDetector_init 5 2" "''10.0.0.5''" 0 five_syns 5]
    e w l f4 f5 t4 t5 thr
  show ?thesis by (simp add: SYNDetector_init_def)
qed

text \<open>
  Claim C7, as amended. With a window that is not negative, after a call no stored reading
  of the address is older than \<open>now - window_seconds\<close>. When each observation of an address
  comes more than \<open>window_seconds\<close> after all earlier ones, those already stored for the
  address included (the readings increase), no call for it reports an attack under a
  threshold of at least 2, however many observations there are.
\<close>

theorem window_excludes_old_observations:
  "(0 \<le> window_seconds d \<longrightarrow>
      (\<forall>t \<in> set (ip_window (snd (check_syn_flood d a now)) a). now - window_seconds d \<le> t))
   \<and> (2 \<le> threshold d
        \<and> (\<forall>p \<in> set (ip_window d a). \<forall>u \<in> set (times_of a evs). p + window_seconds d < u)
        \<and> spaced_apart (window_seconds d) (times_of a evs)
        \<and> i < length evs \<and> fst (evs ! i) = a
      \<longrightarrow> \<not> is_attack (fst (observe_all d evs) ! i))"
proof (intro conjI impI)
  assume "0 \<le> window_seconds d"
  then show "\<forall>t \<in> set (ip_window (snd (check_syn_flood d a now)) a). now - window_seconds d \<le> t"
    by (auto simp: ip_window_check_same)
next
  assume h: "2 \<le> threshold d
        \<and> (\<forall>p \<in> set (ip_window d a). \<forall>u \<in> set (times_of a evs). p + window_seconds d < u)
        \<and> spaced_apart (window_seconds d) (times_of a evs)
        \<and> i < length evs \<and> fst (evs ! i) = a"
  then have "packet_count (fst (observe_all d evs) ! i) = 1"
    using observe_all_spaced_count[of d a evs i] by blast
  with h show "\<not> is_attack (fst (observe_all d evs) ! i)"
    using observe_all_attack[of i evs d] by simp
qed

text \<open>
  Three observations of one address three seconds apart, window 2, threshold 2.
\<close>

theorem window_excludes_old_observations_witness:
  "(0::real) \<le> 2
   \<and> list_all (\<lambda>t. 7 - 2 \<le> t)
        (ip_window (snd (check_syn_flood (SYNDetector_init 2 2) ''10.0.0.5'' 7)) ''10.0.0.5'')
   \<and> spaced_apart 2 (times_of ''10.0.0.5'' slow_syns)
   \<and> \<not> is_attack (fst (observe_all (SYNDetector_init 2 2) slow_syns) ! 3)"
proof -
  have e: "ip_window (SYNDetector_init 2 2) ''10.0.0.5'' = []"
    by (simp add: ip_window_def SYNDetector_init_def get_default_def)
  have s: "spaced_apart (window_seconds (SYNDetector_init 2 2)) (times_of ''10.0.0.5'' slow_syns)"
    by (simp add: times_of_def slow_syns_def SYNDetector_init_def)
  have l: "3 < length slow_syns" "fst (slow_syns ! 3) = ''10.0.0.5''"
    by (simp_all add: slow_syns_def)
  have c: "threshold (SYNDetector_init 2 2) = 2" "window_seconds (SYNDetector_init 2 2) = 2"
    by (simp_all add: SYNDetector_init_def)
  from window_excludes_old_observations[of "SYNDetector_init 2 2" "''10.0.0.5''" 7 slow_syns 3]
    e s l c
  show ?thesis by (simp add: list_all_iff)
qed

text \<open>
  Claim C7 as stated fails twice. With a negative window the reading just stored is
  older than \<open>now - window_seconds\<close>. And readings that are pairwise more than the
  window apart, but not in increasing order (100, 50, 53, 56 with window 2), are
  reported as an attack under threshold 2: a stored reading later than \<open>now\<close> is kept.
\<close>

theorem pairwise_spaced_readings_detected:
  "ip_window (snd (check_syn_flood (SYNDetector_init 2 (- 1)) ''10.0.0.5'' 7)) ''10.0.0.5'' = [7]
   \<and> (7::real) < 7 - (- 1)
   \<and> (2::real) < \<bar>100 - 50\<bar> \<and> (2::real) < \<bar>100 - 53\<bar> \<and> (2::real) < \<bar>100 - 56\<bar>
   \<and> (2::real) < \<bar>50 - 53\<bar> \<and> (2::real) < \<bar>50 - 56\<bar> \<and> (2::real) < \<bar>53 - 56\<bar>
   \<and> map is_attack (fst (observe_all (SYNDetector_init 2 2) backward_syns)) =
       [False, True, True, True]"
proof -
  have e: "ip_window (SYNDetector_init thr w) a = []" for thr w a
    by (simp add: ip_window_def SYNDetector_init_def get_default_def)
  have a: "ip_window (snd (check_syn_flood (SYNDetector_init 2 (- 1)) ''10.0.0.5'' 7)) ''10.0.0.5'' = [7]"
    by (simp add: ip_window_check_same e)
  let ?A = "''10.0.0.5''"
  let ?d0 = "SYNDetector_init 2 2"
  let ?d1 = "snd (check_syn_flood ?d0 ?A 100)"
  let ?d2 = "snd (check_syn_flood ?d1 ?A 50)"
  let ?d3 = "snd (check_syn_flood ?d2 ?A 53)"
  let ?d4 = "snd (check_syn_flood ?d3 ?A 56)"
  have c: "threshold ?d0 = 2" "window_seconds ?d0 = 2"
    by (simp_all add: SYNDetector_init_def)
  have w1: "ip_window ?d1 ?A = [100]"
    by (simp add: ip_window_check_same e)
  have w2: "ip_window ?d2 ?A = [100, 50]"
    by (simp add: ip_window_check_same[of ?d1] w1 check_syn_flood_config c)
  have w3: "ip_window ?d3 ?A = [100, 53]"
    by (simp add: ip_window_check_same[of ?d2] w2 check_syn_flood_config c)
  have w4: "ip_window ?d4 ?A = [100, 56]"
    by (simp add: ip_window_check_same[of ?d3] w3 check_syn_flood_config c)
  have r: "map is_attack (fst (observe_all ?d0 backward_syns)) = [False, True, True, True]"
    by (simp add: backward_syns_def observe_all_Cons check_syn_flood_result
        check_syn_flood_config c w1 w2 w3 w4)
  from a r show ?thesis by simp
qed

section \<open>Properties of the Blocking Manager\<close>

lemma delete_not_listed: "a \<notin> fst ` set (AList.delete a al)"
  by (auto simp: AList.delete_eq)

lemma get_blocked_ips_keys:
  "ab_ip_address ` set (fst (get_blocked_ips fw t)) \<subseteq> fst ` set (blocked_ips fw)"
  by (force simp: get_blocked_ips_def Let_def)

text \<open>
  Claim C8. \<^verbatim>\<open>is_blocked\<close> answers True exactly when the address has an entry whose
  \<open>unblock_time\<close> is still ahead, and then leaves the state as it is. With an entry that
  has run out (\<open>now \<ge> unblock_time\<close>) it answers False and deletes the entry, so that no
  later listing by \<^verbatim>\<open>get_blocked_ips\<close> shows the address. With no entry it answers False
  and the state is unchanged.
\<close>

theorem is_blocked_lazy_expiry:
  "fst (is_blocked fw a now) =
     (\<exists>entry. map_of (blocked_ips fw) a = Some entry \<and> now < unblock_time entry)
   \<and> (fst (is_blocked fw a now) \<longrightarrow> snd (is_blocked fw a now) = fw)
   \<and> (map_of (blocked_ips fw) a = Some info \<and> unblock_time info \<le> now \<longrightarrow>
        \<not> fst (is_blocked fw a now)
        \<and> blocked_ips (snd (is_blocked fw a now)) = AList.delete a (blocked_ips fw)
        \<and> map_of (blocked_ips (snd (is_blocked fw a now))) a = None
        \<and> a \<notin> ab_ip_address ` set (fst (get_blocked_ips (snd (is_blocked fw a now)) later)))
   \<and> (map_of (blocked_ips fw) a = None \<longrightarrow> is_blocked fw a now = (False, fw))"
proof (intro conjI impI)
  show "fst (is_blocked fw a now) =
     (\<exists>entry. map_of (blocked_ips fw) a = Some entry \<and> now < unblock_time entry)"
    by (auto simp: is_blocked_def split: option.splits)
next
  assume "fst (is_blocked fw a now)"
  then show "snd (is_blocked fw a now) = fw"
    by (auto simp: is_blocked_def split: option.splits if_splits)
next
  assume h: "map_of (blocked_ips fw) a = Some info \<and> unblock_time info \<le> now"
  then show "\<not> fst (is_blocked fw a now)"
    by (simp add: is_blocked_def)
  from h show d: "blocked_ips (snd (is_blocked fw a now)) = AList.delete a (blocked_ips fw)"
    by (simp add: is_blocked_def)
  show "map_of (blocked_ips (snd (is_blocked fw a now))) a = None"
    by (simp add: d delete_conv')
  show "a \<notin> ab_ip_address ` set (fst (get_blocked_ips (snd (is_blocked fw a now)) later))"
    using get_blocked_ips_keys[of "snd (is_blocked fw a now)" later] delete_not_listed[of a "blocked_ips fw"]
    by (auto simp: d)
next
  assume "map_of (blocked_ips fw) a = None"
  then show "is_blocked fw a now = (False, fw)"
    by (simp add: is_blocked_def)
qed

lemma blocked_until_600_made:
  "block_ip (FirewallManager_init 10) ''10.0.0.5'' 0 = Inr blocked_until_600"
  by (simp add: blocked_until_600_def block_ip_def FirewallManager_init_def fromtimestamp_def)

lemma blocked_until_600_entry:
  "blocked_ips blocked_until_600 = [(''10.0.0.5'', \<lparr>blocked_at = 0, unblock_time = 600\<rparr>)]"
  by (simp add: blocked_until_600_def)

text \<open>
  An address blocked at 0 for ten minutes: blocked at 599, released and removed at 600;
  an unknown address is not blocked.
\<close>

theorem is_blocked_lazy_expiry_witness:
  "fst (is_blocked blocked_until_600 ''10.0.0.5'' 599)
   \<and> snd (is_blocked blocked_until_600 ''10.0.0.5'' 599) = blocked_until_600
   \<and> \<not> fst (is_blocked blocked_until_600 ''10.0.0.5'' 600)
   \<and> blocked_ips (snd (is_blocked blocked_until_600 ''10.0.0.5'' 600)) = []
   \<and> fst (get_blocked_ips (snd (is_blocked blocked_until_600 ''10.0.0.5'' 600)) 600) = []
   \<and> is_blocked blocked_until_600 ''10.0.0.9'' 5 = (False, blocked_until_600)"
proof -
  have m: "map_of (blocked_ips blocked_until_600) ''10.0.0.5'' = Some \<lparr>blocked_at = 0, unblock_time = 600\<rparr>"
    by (simp add: blocked_until_600_entry)
  have n: "map_of (blocked_ips blocked_until_600) ''10.0.0.9'' = None"
    by (simp add: blocked_until_600_entry)
  have a: "fst (is_blocked blocked_until_600 ''10.0.0.5'' 599)
       \<and> snd (is_blocked blocked_until_600 ''10.0.0.5'' 599) = blocked_until_600"
    using is_blocked_lazy_expiry[of blocked_until_600 "''10.0.0.5''" 599 "\<lparr>blocked_at = 0, unblock_time = 600\<rparr>" 0] m
    by simp
  have b: "\<not> fst (is_blocked blocked_until_600 ''10.0.0.5'' 600)
       \<and> blocked_ips (snd (is_blocked blocked_until_600 ''10.0.0.5'' 600)) = []"
    using is_blocked_lazy_expiry[of blocked_until_600 "''10.0.0.5''" 600 "\<lparr>blocked_at = 0, unblock_time = 600\<rparr>" 600] m
    by (simp add: blocked_until_600_entry AList.delete_eq)
  then have c: "fst (get_blocked_ips (snd (is_blocked blocked_until_600 ''10.0.0.5'' 600)) 600) = []"
    by (simp add: get_blocked_ips_def)
  have d: "is_blocked blocked_until_600 ''10.0.0.9'' 5 = (False, blocked_until_600)"
    using is_blocked_lazy_expiry[of blocked_until_600 "''10.0.0.9''" 5 "\<lparr>blocked_at = 0, unblock_time = 600\<rparr>" 0] n
    by simp
  from a b c d show ?thesis by simp
qed

section \<open>Properties of the Traffic Analyzer\<close>

lemma tcp_syn_test_iff: "tcp_syn_test p = (\<exists>t. TCP p = Some t \<and> flags t = 2)"
  by (simp add: tcp_syn_test_def split: option.splits)

lemma process_packet_no_ip: "IP packet = None \<Longrightarrow> process_packet a packet tk r = (r, a)"
  by (simp add: process_packet_def)

lemma process_packet_detector:
  "IP packet = Some ipl \<Longrightarrow>
   syn_detector (snd (process_packet a packet tk r)) =
     (if tcp_syn_test packet
      then snd (check_syn_flood (syn_detector a) (src ipl) (t_check tk))
      else syn_detector a)"
  by (simp add: process_packet_def Let_def case_prod_beta split: sum.splits)


lemma process_packet_connections:
  "IP packet = Some ipl \<Longrightarrow>
   connections (snd (process_packet a packet tk r)) =
     AList.update (src ipl)
       (get_default (connections a) (src ipl) [] @
          [\<lparr>conn_dst_ip = dst ipl, conn_timestamp = t_seen tk,
            conn_protocol = get_protocol packet\<rparr>])
       (connections a)"
  by (simp add: process_packet_def Let_def case_prod_beta split: sum.splits)


lemma detect_udp_flood_entries: "detect_udp_flood a s = (10 < udp_entries a s)"
  by (simp add: detect_udp_flood_def udp_entries_def)

lemma get_protocol_udp: "(get_protocol p = ''UDP'') = (TCP p = None \<and> UDP p \<noteq> None)"
  by (simp add: get_protocol_def)

lemma process_packet_udp_entries:
  "IP packet = Some ipl \<Longrightarrow>
   udp_entries (snd (process_packet a packet tk r)) s =
     udp_entries a s + (if src ipl = s \<and> TCP packet = None \<and> UDP packet \<noteq> None then 1 else 0)"
  by (cases "src ipl = s")
    (simp_all add: udp_entries_def process_packet_connections get_default_update_same
      get_default_update_other get_protocol_udp)

lemma udp_seen_Nil: "udp_seen s [] = 0"
  by (simp add: udp_seen_def)

lemma udp_seen_Cons:
  "udp_seen s ((p, tk) # ps) =
     (if (case IP p of Some ipl \<Rightarrow> src ipl = s | None \<Rightarrow> False) \<and> TCP p = None \<and> UDP p \<noteq> None
      then 1 else 0) + udp_seen s ps"
  by (simp add: udp_seen_def)

lemma udp_seen_append: "udp_seen s (ps @ qs) = udp_seen s ps + udp_seen s qs"
  by (simp add: udp_seen_def)

lemma analyze_packets_Cons:
  "analyze_packets a ((packet, tk) # rest) r =
     analyze_packets (snd (process_packet a packet tk r)) rest (fst (process_packet a packet tk r))"
  by (cases "IP packet") (simp_all add: process_packet_no_ip case_prod_beta)

declare analyze_packets.simps(2) [simp del]

lemma analyze_packets_udp_entries:
  "udp_entries (snd (analyze_packets a ps r)) s = udp_entries a s + udp_seen s ps"
proof (induction ps arbitrary: a r)
  case Nil
  then show ?case by (simp add: udp_seen_Nil)
next
  case (Cons x ps)
  obtain p tk where x: "x = (p, tk)" by (cases x)
  show ?case
  proof (cases "IP p")
    case None
    then show ?thesis using Cons.IH x
      by (simp add: analyze_packets_Cons process_packet_no_ip udp_seen_Cons)
  next
    case (Some ipl)
    then show ?thesis using Cons.IH x
      by (simp add: analyze_packets_Cons process_packet_udp_entries udp_seen_Cons)
  qed
qed

lemma process_packet_udp_branch:
  assumes "IP packet = Some ipl" "UDP packet \<noteq> None" "\<not> tcp_syn_test packet"
  shows "firestore_logger (snd (process_packet a packet tk r)) =
           firestore_logger a @
             (if 10 < udp_entries (snd (process_packet a packet tk r)) (src ipl)
              then [udp_flood_log a packet tk] else [])"
    and "attack_count (snd (process_packet a packet tk r)) =
           attack_count a +
             (if 10 < udp_entries (snd (process_packet a packet tk r)) (src ipl) then 1 else 0)"
    and "res_attacks_detected (fst (process_packet a packet tk r)) =
           res_attacks_detected r +
             (if 10 < udp_entries (snd (process_packet a packet tk r)) (src ipl) then 1 else 0)"
  using assms
  by (simp_all add: process_packet_def Let_def detect_udp_flood_entries udp_entries_def
      udp_flood_log_def log_attack_def count_attack_type_def)

text \<open>
  Claim C9. In a session that started with an empty connection table, a packet with a UDP
  layer that is not taken by the SYN branch is reported as a UDP flood exactly when the
  number of UDP packets seen from its source since the start of the session, this one
  included, exceeds 10: then one record of type UDP Flood is logged and the attack
  counters go up by one, and otherwise nothing is logged. Nothing is ever taken out of
  the count, so every later UDP packet of that source is reported again.
\<close>

theorem udp_flood_lifetime_count:
  "connections a = [] \<and> IP packet = Some ipl \<and> UDP packet \<noteq> None
     \<and> \<not> (\<exists>t. TCP packet = Some t \<and> flags t = 2)
   \<longrightarrow> firestore_logger (snd (process_packet (snd (analyze_packets a history r0)) packet tk r)) =
         firestore_logger (snd (analyze_packets a history r0)) @
           (if 10 < udp_seen (src ipl) (history @ [(packet, tk)])
            then [udp_flood_log (snd (analyze_packets a history r0)) packet tk] else [])
     \<and> attack_count (snd (process_packet (snd (analyze_packets a history r0)) packet tk r)) =
         attack_count (snd (analyze_packets a history r0)) +
           (if 10 < udp_seen (src ipl) (history @ [(packet, tk)]) then 1 else 0)
     \<and> res_attacks_detected (fst (process_packet (snd (analyze_packets a history r0)) packet tk r)) =
         res_attacks_detected r +
           (if 10 < udp_seen (src ipl) (history @ [(packet, tk)]) then 1 else 0)"
proof (intro impI)
  let ?a1 = "snd (analyze_packets a history r0)"
  assume h: "connections a = [] \<and> IP packet = Some ipl \<and> UDP packet \<noteq> None
     \<and> \<not> (\<exists>t. TCP packet = Some t \<and> flags t = 2)"
  then have ip: "IP packet = Some ipl" and udp: "UDP packet \<noteq> None"
    and ns: "\<not> tcp_syn_test packet"
    by (simp_all add: tcp_syn_test_iff)
  have "udp_entries a (src ipl) = 0"
    using h by (simp add: udp_entries_def get_default_def)
  then have "udp_entries (snd (process_packet ?a1 packet tk r)) (src ipl) =
      udp_seen (src ipl) (history @ [(packet, tk)])"
    using ip by (simp add: process_packet_udp_entries analyze_packets_udp_entries
        udp_seen_append udp_seen_Cons udp_seen_Nil)
  then show "firestore_logger (snd (process_packet ?a1 packet tk r)) =
         firestore_logger ?a1 @
           (if 10 < udp_seen (src ipl) (history @ [(packet, tk)])
            then [udp_flood_log ?a1 packet tk] else [])
     \<and> attack_count (snd (process_packet ?a1 packet tk r)) =
         attack_count ?a1 +
           (if 10 < udp_seen (src ipl) (history @ [(packet, tk)]) then 1 else 0)
     \<and> res_attacks_detected (fst (process_packet ?a1 packet tk r)) =
         res_attacks_detected r +
           (if 10 < udp_seen (src ipl) (history @ [(packet, tk)]) then 1 else 0)"
    using process_packet_udp_branch[OF ip udp ns, of ?a1 tk r] by simp
qed


lemma udp_seen_replicate:
  "udp_seen s (replicate n (udp_packet s d, tk)) = n"
  by (simp add: udp_seen_def udp_packet_def)

text \<open>
  The tenth UDP packet of a source is not reported; the eleventh and the twelfth are.
\<close>

theorem udp_flood_lifetime_count_witness:
  "connections fresh_analyzer = []
   \<and> attack_count (snd (process_packet
        (snd (analyze_packets fresh_analyzer
               (replicate 9 (udp_packet ''10.0.0.7'' ''10.0.0.1'', at_time 0)) no_results))
        (udp_packet ''10.0.0.7'' ''10.0.0.1'') (at_time 1) no_results)) =
      attack_count (snd (analyze_packets fresh_analyzer
               (replicate 9 (udp_packet ''10.0.0.7'' ''10.0.0.1'', at_time 0)) no_results))
   \<and> attack_count (snd (process_packet
        (snd (analyze_packets fresh_analyzer
               (replicate 10 (udp_packet ''10.0.0.7'' ''10.0.0.1'', at_time 0)) no_results))
        (udp_packet ''10.0.0.7'' ''10.0.0.1'') (at_time 1) no_results)) =
      attack_count (snd (analyze_packets fresh_analyzer
               (replicate 10 (udp_packet ''10.0.0.7'' ''10.0.0.1'', at_time 0)) no_results)) + 1
   \<and> attack_count (snd (process_packet
        (snd (analyze_packets fresh_analyzer
               (replicate 11 (udp_packet ''10.0.0.7'' ''10.0.0.1'', at_time 0)) no_results))
        (udp_packet ''10.0.0.7'' ''10.0.0.1'') (at_time 1) no_results)) =
      attack_count (snd (analyze_packets fresh_analyzer
               (replicate 11 (udp_packet ''10.0.0.7'' ''10.0.0.1'', at_time 0)) no_results)) + 1"
proof -
  have c: "connections fresh_analyzer = []"
    by (simp add: fresh_analyzer_def PacketAnalyzer_init_def)
  have p: "IP (udp_packet ''10.0.0.7'' ''10.0.0.1'') = Some \<lparr>src = ''10.0.0.7'', dst = ''10.0.0.1''\<rparr>"
    "UDP (udp_packet ''10.0.0.7'' ''10.0.0.1'') \<noteq> None"
    "TCP (udp_packet ''10.0.0.7'' ''10.0.0.1'') = None"
    by (simp_all add: udp_packet_def)
  have one: "udp_seen ''10.0.0.7'' [(udp_packet ''10.0.0.7'' ''10.0.0.1'', tk)] = 1" for tk
    using udp_seen_replicate[of "''10.0.0.7''" 1 "''10.0.0.1''" tk] by simp
  note t = udp_flood_lifetime_count[of fresh_analyzer "udp_packet ''10.0.0.7'' ''10.0.0.1''"
      "\<lparr>src = ''10.0.0.7'', dst = ''10.0.0.1''\<rparr>" _ no_results "at_time 1" no_results]
  from t[of "replicate 9 (udp_packet ''10.0.0.7'' ''10.0.0.1'', at_time 0)"]
    t[of "replicate 10 (udp_packet ''10.0.0.7'' ''10.0.0.1'', at_time 0)"]
    t[of "replicate 11 (udp_packet ''10.0.0.7'' ''10.0.0.1'', at_time 0)"]
    c p
  show ?thesis
    by (simp add: udp_seen_append udp_seen_replicate one)
qed

text \<open>
  Claim C6, as amended. A record reaches the Flood Detector exactly when it has an IP and
  a TCP layer and its TCP flags field equals 2 (SYN and no other flag): then the detector
  is called for the record's source. A record without a TCP layer, or with the ACK bit
  set, leaves the detector as it was.
\<close>

theorem syn_detector_reached_by_flags_2:
  "(IP packet = Some ipl \<longrightarrow>
      syn_detector (snd (process_packet a packet tk r)) =
        (if (\<exists>t. TCP packet = Some t \<and> flags t = 2)
         then snd (check_syn_flood (syn_detector a) (src ipl) (t_check tk))
         else syn_detector a))
   \<and> (TCP packet = None \<or> (\<exists>t. TCP packet = Some t \<and> flags t AND 16 \<noteq> 0) \<longrightarrow>
        syn_detector (snd (process_packet a packet tk r)) = syn_detector a)"
proof (intro conjI impI)
  assume "IP packet = Some ipl"
  then show "syn_detector (snd (process_packet a packet tk r)) =
        (if (\<exists>t. TCP packet = Some t \<and> flags t = 2)
         then snd (check_syn_flood (syn_detector a) (src ipl) (t_check tk))
         else syn_detector a)"
    by (simp add: process_packet_detector tcp_syn_test_iff)
next
  assume h: "TCP packet = None \<or> (\<exists>t. TCP packet = Some t \<and> flags t AND 16 \<noteq> 0)"
  have "\<not> tcp_syn_test packet"
  proof
    assume "tcp_syn_test packet"
    then obtain t where t: "TCP packet = Some t" "flags t = 2"
      by (auto simp: tcp_syn_test_iff)
    with h have "(2::int) AND 16 \<noteq> 0" by auto
    then show False by simp
  qed
  then show "syn_detector (snd (process_packet a packet tk r)) = syn_detector a"
    by (cases "IP packet") (simp_all add: process_packet_no_ip process_packet_detector)
qed

text \<open>
  A packet with flags 2 enters the window of its source; one with SYN and ACK (18) does
  not reach the detector.
\<close>

theorem syn_detector_reached_by_flags_2_witness:
  "ip_window (syn_detector (snd (process_packet fresh_analyzer
       (tcp_packet ''10.0.0.5'' ''10.0.0.1'' 2) (at_time 0) no_results))) ''10.0.0.5'' = [0]
   \<and> (18::int) AND 16 \<noteq> 0
   \<and> syn_detector (snd (process_packet fresh_analyzer
       (tcp_packet ''10.0.0.5'' ''10.0.0.1'' 18) (at_time 0) no_results)) =
      syn_detector fresh_analyzer"
proof -
  have ip: "IP (tcp_packet ''10.0.0.5'' ''10.0.0.1'' fl) = Some \<lparr>src = ''10.0.0.5'', dst = ''10.0.0.1''\<rparr>"
    "TCP (tcp_packet ''10.0.0.5'' ''10.0.0.1'' fl) = Some \<lparr>tcp_sport = 1024, tcp_dport = 80, flags = fl\<rparr>" for fl
    by (simp_all add: tcp_packet_def)
  have e: "ip_window (syn_detector fresh_analyzer) ''10.0.0.5'' = []"
    by (simp add: fresh_analyzer_def PacketAnalyzer_init_def SYNDetector_init_def
        ip_window_def get_default_def)
  have w: "ip_window (snd (check_syn_flood (syn_detector fresh_analyzer) ''10.0.0.5'' 0)) ''10.0.0.5'' = [0]"
    by (simp add: ip_window_check_same e)
  have b: "(18::int) AND 16 \<noteq> 0" by simp
  from syn_detector_reached_by_flags_2[of "tcp_packet ''10.0.0.5'' ''10.0.0.1'' 2"
      "\<lparr>src = ''10.0.0.5'', dst = ''10.0.0.1''\<rparr>" fresh_analyzer "at_time 0" no_results]
    syn_detector_reached_by_flags_2[of "tcp_packet ''10.0.0.5'' ''10.0.0.1'' 18"
      "\<lparr>src = ''10.0.0.5'', dst = ''10.0.0.1''\<rparr>" fresh_analyzer "at_time 0" no_results]
    ip w b
  show ?thesis by (simp add: at_time_def)
qed

text \<open>
  Claim C6 as stated fails: a TCP packet with SYN and PSH (flags 10) has SYN set and ACK
  clear, and the detector is not called for it.
\<close>

theorem syn_with_psh_not_checked:
  "(10::int) AND 2 \<noteq> 0 \<and> (10::int) AND 16 = 0
   \<and> TCP (tcp_packet ''10.0.0.5'' ''10.0.0.1'' 10) =
       Some \<lparr>tcp_sport = 1024, tcp_dport = 80, flags = 10\<rparr>
   \<and> syn_detector (snd (process_packet fresh_analyzer
       (tcp_packet ''10.0.0.5'' ''10.0.0.1'' 10) (at_time 0) no_results)) =
      syn_detector fresh_analyzer
   \<and> ip_window (syn_detector (snd (process_packet fresh_analyzer
       (tcp_packet ''10.0.0.5'' ''10.0.0.1'' 10) (at_time 0) no_results))) ''10.0.0.5'' = []"
proof -
  have ip: "IP (tcp_packet ''10.0.0.5'' ''10.0.0.1'' 10) = Some \<lparr>src = ''10.0.0.5'', dst = ''10.0.0.1''\<rparr>"
    and tcp: "TCP (tcp_packet ''10.0.0.5'' ''10.0.0.1'' 10) =
       Some \<lparr>tcp_sport = 1024, tcp_dport = 80, flags = 10\<rparr>"
    by (simp_all add: tcp_packet_def)
  have n: "\<not> tcp_syn_test (tcp_packet ''10.0.0.5'' ''10.0.0.1'' 10)"
    by (simp add: tcp_syn_test_def tcp)
  have d: "syn_detector (snd (process_packet fresh_analyzer
       (tcp_packet ''10.0.0.5'' ''10.0.0.1'' 10) (at_time 0) no_results)) =
      syn_detector fresh_analyzer"
    using ip n by (simp add: process_packet_detector)
  have e: "ip_window (syn_detector fresh_analyzer) ''10.0.0.5'' = []"
    by (simp add: fresh_analyzer_def PacketAnalyzer_init_def SYNDetector_init_def
        ip_window_def get_default_def)
  show ?thesis using tcp d e by simp
qed

subsection \<open>SYN floods over a run\<close>
































section \<open>Properties of the Batch Aggregator\<close>

lemma transform_packet_None: "(transform_packet pk i = None) = (\<not> decodes pk)"
  by (simp add: transform_packet_def decodes_def Let_def split: sum.splits)


lemma track_connection_frame:
  "ts_packets (track_connection s pd) = ts_packets s \<and>
   ts_attacks (track_connection s pd) = ts_attacks s \<and>
   ts_ip_stats (track_connection s pd) = ts_ip_stats s \<and>
   total_packets (ts_stats (track_connection s pd)) = total_packets (ts_stats s) \<and>
   processed_packets (ts_stats (track_connection s pd)) = processed_packets (ts_stats s) \<and>
   failed_packets (ts_stats (track_connection s pd)) = failed_packets (ts_stats s) \<and>
   attacks_detected (ts_stats (track_connection s pd)) = attacks_detected (ts_stats s) \<and>
   start_time (ts_stats (track_connection s pd)) = start_time (ts_stats s) \<and>
   end_time (ts_stats (track_connection s pd)) = end_time (ts_stats s)"
proof (cases "src_ip pd")
  case None
  then show ?thesis by (simp add: track_connection_def)
next
  case (Some sip)
  show ?thesis
  proof (cases "dst_ip pd")
    case None
    then show ?thesis using Some by (simp add: track_connection_def)
  next
    case dip: (Some dip)
    show ?thesis
    proof (cases "map_of (connections_map s) (get_connection_key sip dip (protocol pd))")
      case None
      then show ?thesis using Some dip
        by (simp add: track_connection_def Let_def update_conv')
    next
      case c: (Some c)
      then show ?thesis using Some dip
        by (simp add: track_connection_def Let_def)
    qed
  qed
qed

lemma transform_step_undecoded: "\<not> decodes pk \<Longrightarrow> transform_step s pk i = s"
  using transform_packet_None[of pk i] by (simp add: transform_step_def)

lemma transform_step_decoded:
  assumes "transform_packet pk i = Some pd"
  shows "ts_packets (transform_step s pk i) = ts_packets s @ [pd]"
    and "ts_ip_stats (transform_step s pk i) =
           snd (detect_attacks pd
                  (update_ip_stats (update_ip_stats (ts_ip_stats s) pd Src_Dir) pd Dst_Dir))"
    and "ts_attacks (transform_step s pk i) =
           ts_attacks s @
             (case fst (detect_attacks pd
                     (update_ip_stats (update_ip_stats (ts_ip_stats s) pd Src_Dir) pd Dst_Dir)) of
                Some attack \<Rightarrow> [attack] | None \<Rightarrow> [])"
    and "attacks_detected (ts_stats (transform_step s pk i)) =
           attacks_detected (ts_stats s) +
             (case fst (detect_attacks pd
                     (update_ip_stats (update_ip_stats (ts_ip_stats s) pd Src_Dir) pd Dst_Dir)) of
                Some attack \<Rightarrow> 1 | None \<Rightarrow> 0)"
    and "processed_packets (ts_stats (transform_step s pk i)) = processed_packets (ts_stats s) + 1"
    and "failed_packets (ts_stats (transform_step s pk i)) = failed_packets (ts_stats s)"
    and "total_packets (ts_stats (transform_step s pk i)) = total_packets (ts_stats s)"
    and "start_time (ts_stats (transform_step s pk i)) = start_time (ts_stats s)"
    and "end_time (ts_stats (transform_step s pk i)) = end_time (ts_stats s)"
  using assms
  by (simp_all add: transform_step_def Let_def case_prod_beta track_connection_frame
      split: option.splits)


lemma length_update_alist:
  "length (AList.update k v al) = (if map_of al k = None then Suc (length al) else length al)"
  by (induction al) auto

lemma track_connection_created:
  "connections_created (ts_stats (track_connection s pd)) + length (connections_map s) =
     connections_created (ts_stats s) + length (connections_map (track_connection s pd))"
proof (cases "src_ip pd")
  case None
  then show ?thesis by (simp add: track_connection_def)
next
  case (Some sip)
  show ?thesis
  proof (cases "dst_ip pd")
    case None
    then show ?thesis using Some by (simp add: track_connection_def)
  next
    case dip: (Some dip)
    show ?thesis
    proof (cases "map_of (connections_map s) (get_connection_key sip dip (protocol pd))")
      case None
      then show ?thesis using Some dip
        by (simp add: track_connection_def Let_def update_conv' length_update_alist)
    next
      case c: (Some c)
      then show ?thesis using Some dip
        by (simp add: track_connection_def Let_def length_update_alist)
    qed
  qed
qed

lemma transform_step_counters:
  "total_packets (ts_stats (transform_step s pk i)) = total_packets (ts_stats s) \<and>
   failed_packets (ts_stats (transform_step s pk i)) = failed_packets (ts_stats s) \<and>
   start_time (ts_stats (transform_step s pk i)) = start_time (ts_stats s) \<and>
   end_time (ts_stats (transform_step s pk i)) = end_time (ts_stats s) \<and>
   processed_packets (ts_stats (transform_step s pk i)) =
     processed_packets (ts_stats s) + (if decodes pk then 1 else 0) \<and>
   length (ts_packets (transform_step s pk i)) =
     length (ts_packets s) + (if decodes pk then 1 else 0) \<and>
   attacks_detected (ts_stats (transform_step s pk i)) + length (ts_attacks s) =
     attacks_detected (ts_stats s) + length (ts_attacks (transform_step s pk i))"
proof (cases "transform_packet pk i")
  case None
  then have "\<not> decodes pk" by (simp add: transform_packet_None)
  then show ?thesis by (simp add: transform_step_undecoded)
next
  case (Some pd)
  then have "decodes pk" using transform_packet_None[of pk i] by simp
  then show ?thesis
    by (simp add: transform_step_decoded[OF Some] split: option.splits)
qed

lemma transform_step_created:
  "connections_created (ts_stats (transform_step s pk i)) + length (connections_map s) =
     connections_created (ts_stats s) + length (connections_map (transform_step s pk i))"
proof (cases "transform_packet pk i")
  case None
  then have "\<not> decodes pk" by (simp add: transform_packet_None)
  then show ?thesis by (simp add: transform_step_undecoded)
next
  case (Some pd)
  let ?s3 = "s\<lparr>ts_packets := ts_packets s @ [pd],
               ts_stats := (ts_stats s)\<lparr>processed_packets := processed_packets (ts_stats s) + 1\<rparr>,
               ts_ip_stats := update_ip_stats (update_ip_stats (ts_ip_stats s) pd Src_Dir) pd Dst_Dir\<rparr>"
  have a: "connections_created (ts_stats (transform_step s pk i)) =
      connections_created (ts_stats (track_connection ?s3 pd))"
    and b: "connections_map (transform_step s pk i) = connections_map (track_connection ?s3 pd)"
    using Some
    by (simp_all add: transform_step_def Let_def case_prod_beta split: option.splits)
  from track_connection_created[of ?s3 pd] show ?thesis
    by (simp add: a b)
qed

lemma transform_loop_counters:
  "total_packets (ts_stats (transform_loop s ps i)) = total_packets (ts_stats s) \<and>
   failed_packets (ts_stats (transform_loop s ps i)) = failed_packets (ts_stats s) \<and>
   start_time (ts_stats (transform_loop s ps i)) = start_time (ts_stats s) \<and>
   end_time (ts_stats (transform_loop s ps i)) = end_time (ts_stats s) \<and>
   processed_packets (ts_stats (transform_loop s ps i)) =
     processed_packets (ts_stats s) + length (filter decodes ps) \<and>
   length (ts_packets (transform_loop s ps i)) =
     length (ts_packets s) + length (filter decodes ps) \<and>
   attacks_detected (ts_stats (transform_loop s ps i)) + length (ts_attacks s) =
     attacks_detected (ts_stats s) + length (ts_attacks (transform_loop s ps i)) \<and>
   connections_created (ts_stats (transform_loop s ps i)) + length (connections_map s) =
     connections_created (ts_stats s) + length (connections_map (transform_loop s ps i))"
proof (induction ps arbitrary: s i)
  case Nil
  then show ?case by simp
next
  case (Cons pk ps)
  from Cons.IH[of "transform_step s pk i" "Suc i"]
    transform_step_counters[of s pk i] transform_step_created[of s pk i]
  show ?case by simp
qed

lemma transform_loop_undecoded:
  "\<forall>pk \<in> set ps. \<not> decodes pk \<Longrightarrow> transform_loop s ps i = s"
  by (induction ps arbitrary: s i) (simp_all add: transform_step_undecoded)



lemma track_connection_map:
  "connections_map s = connections_map s' \<Longrightarrow>
   connections_map (track_connection s pd) = connections_map (track_connection s' pd)"
proof (cases "src_ip pd")
  case None
  then show "connections_map s = connections_map s' \<Longrightarrow> ?thesis"
    by (simp add: track_connection_def)
next
  case (Some sip)
  assume eq: "connections_map s = connections_map s'"
  show ?thesis
  proof (cases "dst_ip pd")
    case None
    then show ?thesis using Some eq by (simp add: track_connection_def)
  next
    case dip: (Some dip)
    show ?thesis
    proof (cases "map_of (connections_map s') (get_connection_key sip dip (protocol pd))")
      case None
      then show ?thesis using Some dip eq
        by (simp add: track_connection_def Let_def update_conv')
    next
      case c: (Some c)
      then show ?thesis using Some dip eq
        by (simp add: track_connection_def Let_def)
    qed
  qed
qed

lemma transform_step_connections:
  "connections_map s = connections_map s' \<Longrightarrow>
   connections_map (transform_step s pk i) = connections_map (transform_step s' pk i)"
proof (cases "transform_packet pk i")
  case None
  assume "connections_map s = connections_map s'"
  then show ?thesis using None by (simp add: transform_step_def)
next
  case (Some pd)
  assume eq: "connections_map s = connections_map s'"
  have a: "\<And>u. connections_map (transform_step u pk i) =
      connections_map (track_connection
        (u\<lparr>ts_packets := ts_packets u @ [pd],
           ts_stats := (ts_stats u)\<lparr>processed_packets := processed_packets (ts_stats u) + 1\<rparr>,
           ts_ip_stats := update_ip_stats (update_ip_stats (ts_ip_stats u) pd Src_Dir) pd Dst_Dir\<rparr>)
        pd)"
    using Some
    by (simp add: transform_step_def Let_def case_prod_beta split: option.splits)
  show ?thesis
    unfolding a by (rule track_connection_map) (simp add: eq)
qed

text \<open>What the loop collects does not depend on the counters it started from.\<close>

lemma transform_step_data:
  assumes "ts_packets s = ts_packets s'" "connections_map s = connections_map s'"
    "ts_attacks s = ts_attacks s'" "ts_ip_stats s = ts_ip_stats s'"
  shows "ts_packets (transform_step s pk i) = ts_packets (transform_step s' pk i)
    \<and> connections_map (transform_step s pk i) = connections_map (transform_step s' pk i)
    \<and> ts_attacks (transform_step s pk i) = ts_attacks (transform_step s' pk i)
    \<and> ts_ip_stats (transform_step s pk i) = ts_ip_stats (transform_step s' pk i)"
proof (cases "transform_packet pk i")
  case None
  then have "\<not> decodes pk" by (simp add: transform_packet_None)
  then show ?thesis using assms by (simp add: transform_step_undecoded)
next
  case (Some pd)
  show ?thesis
    using assms transform_step_connections[OF assms(2), of pk i]
    by (simp add: transform_step_decoded(1,2,3)[OF Some])
qed

lemma transform_loop_data:
  "ts_packets s = ts_packets s' \<and> connections_map s = connections_map s'
     \<and> ts_attacks s = ts_attacks s' \<and> ts_ip_stats s = ts_ip_stats s' \<Longrightarrow>
   ts_packets (transform_loop s ps i) = ts_packets (transform_loop s' ps i)
    \<and> connections_map (transform_loop s ps i) = connections_map (transform_loop s' ps i)
    \<and> ts_attacks (transform_loop s ps i) = ts_attacks (transform_loop s' ps i)
    \<and> ts_ip_stats (transform_loop s ps i) = ts_ip_stats (transform_loop s' ps i)"
proof (induction ps arbitrary: s s' i)
  case Nil
  then show ?case by simp
next
  case (Cons pk ps)
  have "ts_packets (transform_step s pk i) = ts_packets (transform_step s' pk i)
    \<and> connections_map (transform_step s pk i) = connections_map (transform_step s' pk i)
    \<and> ts_attacks (transform_step s pk i) = ts_attacks (transform_step s' pk i)
    \<and> ts_ip_stats (transform_step s pk i) = ts_ip_stats (transform_step s' pk i)"
    using Cons.prems by (intro transform_step_data) simp_all
  from Cons.IH[OF this, of "Suc i"] show ?case by simp
qed

lemma transform_data_independent: "fst (transform p packets) = fst (transform p' packets)"
proof -
  let ?s = "\<lambda>q. \<lparr>ts_packets = [], connections_map = [], ts_attacks = [], ts_ip_stats = [],
                 ts_stats = stats q\<rparr>"
  have "ts_packets (?s p) = ts_packets (?s p') \<and> connections_map (?s p) = connections_map (?s p')
     \<and> ts_attacks (?s p) = ts_attacks (?s p') \<and> ts_ip_stats (?s p) = ts_ip_stats (?s p')"
    by simp
  from transform_loop_data[OF this, of packets 0] show ?thesis
    by (simp add: transform_def Let_def)
qed

lemma transform_stats:
  "total_packets (stats (snd (transform p packets))) = total_packets (stats p)"
  "failed_packets (stats (snd (transform p packets))) = failed_packets (stats p)"
  "start_time (stats (snd (transform p packets))) = start_time (stats p)"
  "end_time (stats (snd (transform p packets))) = end_time (stats p)"
  "processed_packets (stats (snd (transform p packets))) =
     processed_packets (stats p) + length (filter decodes packets)"
  "attacks_detected (stats (snd (transform p packets))) =
     attacks_detected (stats p) + length (td_attacks (fst (transform p packets)))"
  "connections_created (stats (snd (transform p packets))) =
     connections_created (stats p) + length (td_connections (fst (transform p packets)))"
  "length (td_packets (fst (transform p packets))) = length (filter decodes packets)"
  "logger (snd (transform p packets)) = logger p"
  "written (snd (transform p packets)) = written p"
  using transform_loop_counters[of "\<lparr>ts_packets = [], connections_map = [], ts_attacks = [],
      ts_ip_stats = [], ts_stats = stats p\<rparr>" packets 0]
  by (simp_all add: transform_def Let_def)

lemma transform_nothing_decoded:
  "filter decodes packets = [] \<Longrightarrow>
   fst (transform p packets) =
     \<lparr>td_packets = [], td_connections = [], td_attacks = [], ip_statistics = []\<rparr>"
proof -
  assume "filter decodes packets = []"
  then have "\<forall>pk \<in> set packets. \<not> decodes pk" by (simp add: filter_empty_conv)
  from transform_loop_undecoded[OF this] show ?thesis
    by (simp add: transform_def Let_def)
qed

lemma extract_packets_stats:
  "stats (snd (extract_packets p source node now)) =
     (case fst (extract_packets p source node now) of
        Inl e \<Rightarrow> (stats p)\<lparr>start_time := Some now\<rparr>
      | Inr packets \<Rightarrow> (stats p)\<lparr>start_time := Some now, total_packets := length packets\<rparr>)"
  "logger (snd (extract_packets p source node now)) = logger p"
  "written (snd (extract_packets p source node now)) = written p"
  by (simp_all add: extract_packets_def Let_def split: sum.splits)

lemma load_collection_fails:
  "(\<exists>e. load_collection sk c records bs = Inl e) = (records \<noteq> [] \<and> bs = 0)"
  by (simp add: load_collection_def py_range_def)

lemma load_outcome:
  "(\<exists>ls. fst (load p td bs now) = Inr ls) =
     (start_time (stats p) \<noteq> None \<and> \<not> (bs = 0 \<and> (td_packets td \<noteq> [] \<or> td_connections td \<noteq> [])))"
proof (cases "bs = 0")
  case True
  show ?thesis
  proof (cases "td_packets td = []")
    case p: True
    show ?thesis
    proof (cases "td_connections td = []")
      case c: True
      then show ?thesis using True p
        by (simp add: load_def load_collection_def Let_def split: option.splits)
    next
      case c: False
      then show ?thesis using True p
        by (simp add: load_def load_collection_def py_range_def Let_def)
    qed
  next
    case p: False
    then show ?thesis using True
      by (simp add: load_def load_collection_def py_range_def Let_def)
  qed
next
  case False
  then show ?thesis
    by (simp add: load_def load_collection_def py_range_def Let_def split: option.splits)
qed

lemma load_stats_kept:
  "total_packets (stats (snd (load p td bs now))) = total_packets (stats p)"
  "processed_packets (stats (snd (load p td bs now))) = processed_packets (stats p)"
  "failed_packets (stats (snd (load p td bs now))) = failed_packets (stats p)"
  "connections_created (stats (snd (load p td bs now))) = connections_created (stats p)"
  "attacks_detected (stats (snd (load p td bs now))) = attacks_detected (stats p)"
  "start_time (stats (snd (load p td bs now))) = start_time (stats p)"
  "logger (snd (load p td bs now)) = logger p"
  by (simp_all add: load_def Let_def split: sum.splits option.splits)


lemma run_alt:
  "run p source node bs t0 t1 =
     (case fst (extract_packets p source node t0) of
        Inl e \<Rightarrow>
          (\<lparr>result_stats = stats (snd (extract_packets p source node t0)), result_load = None,
            success = False, run_error = Some e\<rparr>, snd (extract_packets p source node t0))
      | Inr packets \<Rightarrow>
          (case fst (load (snd (transform (snd (extract_packets p source node t0)) packets))
                      (fst (transform (snd (extract_packets p source node t0)) packets)) bs t1) of
             Inl e \<Rightarrow>
               (\<lparr>result_stats = stats (snd (load (snd (transform (snd (extract_packets p source node t0)) packets))
                      (fst (transform (snd (extract_packets p source node t0)) packets)) bs t1)),
                 result_load = None, success = False, run_error = Some e\<rparr>,
                snd (load (snd (transform (snd (extract_packets p source node t0)) packets))
                      (fst (transform (snd (extract_packets p source node t0)) packets)) bs t1))
           | Inr ls \<Rightarrow>
               (\<lparr>result_stats = stats (snd (load (snd (transform (snd (extract_packets p source node t0)) packets))
                      (fst (transform (snd (extract_packets p source node t0)) packets)) bs t1)),
                 result_load = Some ls, success = True, run_error = None\<rparr>,
                snd (load (snd (transform (snd (extract_packets p source node t0)) packets))
                      (fst (transform (snd (extract_packets p source node t0)) packets)) bs t1))))"
  by (simp add: run_def Let_def split: prod.splits sum.splits)


lemma run_extract_failed:
  assumes "fst (extract_packets p source node t0) = Inl e"
  shows "fst (run p source node bs t0 t1) =
     \<lparr>result_stats = (stats p)\<lparr>start_time := Some t0\<rparr>, result_load = None,
      success = False, run_error = Some e\<rparr>"
  using assms by (simp add: run_alt extract_packets_stats)

lemma run_extracted:
  assumes "fst (extract_packets p source node t0) = Inr packets"
  shows "success (fst (run p source node bs t0 t1)) = (\<not> (bs = 0 \<and> filter decodes packets \<noteq> []))"
    and "total_packets (result_stats (fst (run p source node bs t0 t1))) = length packets"
    and "processed_packets (result_stats (fst (run p source node bs t0 t1))) =
           processed_packets (stats p) + length (filter decodes packets)"
    and "failed_packets (result_stats (fst (run p source node bs t0 t1))) = failed_packets (stats p)"
    and "connections_created (result_stats (fst (run p source node bs t0 t1))) =
           connections_created (stats p) + length (td_connections (fst (transform q packets)))"
    and "attacks_detected (result_stats (fst (run p source node bs t0 t1))) =
           attacks_detected (stats p) + length (td_attacks (fst (transform q packets)))"
proof -
  let ?p1 = "snd (extract_packets p source node t0)"
  let ?tr = "transform ?p1 packets"
  let ?ld = "load (snd ?tr) (fst ?tr) bs t1"
  have st1: "stats ?p1 = (stats p)\<lparr>start_time := Some t0, total_packets := length packets\<rparr>"
    using assms by (simp add: extract_packets_stats)
  have td: "fst ?tr = fst (transform q packets)"
    by (rule transform_data_independent)
  have started: "start_time (stats (snd ?tr)) \<noteq> None"
    by (simp add: transform_stats st1)
  have pk: "(td_packets (fst ?tr) \<noteq> [] \<or> td_connections (fst ?tr) \<noteq> []) =
      (filter decodes packets \<noteq> [])"
  proof (cases "filter decodes packets = []")
    case True
    then show ?thesis by (simp add: transform_nothing_decoded)
  next
    case False
    then have "length (td_packets (fst ?tr)) \<noteq> 0" by (simp add: transform_stats)
    then show ?thesis using False by auto
  qed
  have ok: "(\<exists>ls. fst ?ld = Inr ls) = (\<not> (bs = 0 \<and> filter decodes packets \<noteq> []))"
    using started pk by (simp add: load_outcome)
  have res: "result_stats (fst (run p source node bs t0 t1)) = stats (snd ?ld)"
    using assms by (simp add: run_alt split: sum.splits)
  show "success (fst (run p source node bs t0 t1)) = (\<not> (bs = 0 \<and> filter decodes packets \<noteq> []))"
  proof (cases "fst ?ld")
    case (Inl e)
    then have "\<not> (\<exists>ls. fst ?ld = Inr ls)" by simp
    then show ?thesis using assms Inl ok by (simp add: run_alt)
  next
    case (Inr ls)
    then have "\<exists>ls. fst ?ld = Inr ls" by simp
    then show ?thesis using assms Inr ok by (simp add: run_alt)
  qed
  show "total_packets (result_stats (fst (run p source node bs t0 t1))) = length packets"
    by (simp add: res load_stats_kept transform_stats st1)
  show "processed_packets (result_stats (fst (run p source node bs t0 t1))) =
           processed_packets (stats p) + length (filter decodes packets)"
    by (simp add: res load_stats_kept transform_stats st1)
  show "failed_packets (result_stats (fst (run p source node bs t0 t1))) = failed_packets (stats p)"
    by (simp add: res load_stats_kept transform_stats st1)
  show "connections_created (result_stats (fst (run p source node bs t0 t1))) =
           connections_created (stats p) + length (td_connections (fst (transform q packets)))"
    using td by (simp add: res load_stats_kept transform_stats st1)
  show "attacks_detected (result_stats (fst (run p source node bs t0 t1))) =
           attacks_detected (stats p) + length (td_attacks (fst (transform q packets)))"
    using td by (simp add: res load_stats_kept transform_stats st1)
qed


lemma extract_capture_file:
  "is_capture_name source \<Longrightarrow> fst (extract_packets p source (File_Path content) t) = content"
  by (simp add: extract_packets_def Let_def split: sum.splits)

lemma capture_names: "is_capture_name ''capture.pcap''" "is_capture_name ''late.pcapng''"
  by (simp_all add: is_capture_name_def endswith_def)

lemma read_all_fails: "(\<exists>e. read_all rs = Inl e) = list_ex isl rs"
  by (induction rs) (auto split: sum.splits)

lemma extract_packets_fails:
  "(\<exists>e. fst (extract_packets p source node t0) = Inl e) =
     (case node of
        No_Such_Path \<Rightarrow> True
      | File_Path content \<Rightarrow> isl content \<or> \<not> is_capture_name source
      | Dir_Path entries \<Rightarrow>
          list_ex (\<lambda>(f, content). is_capture_name f \<and> isl content) entries
          \<or> \<not> list_ex (\<lambda>(f, content). is_capture_name f) entries)"
proof (cases node)
  case No_Such_Path
  then show ?thesis by (simp add: extract_packets_def Let_def)
next
  case (File_Path content)
  then show ?thesis
    by (cases content) (simp_all add: extract_packets_def Let_def)
next
  case (Dir_Path entries)
  let ?fs = "filter (\<lambda>(f, content). is_capture_name f) entries"
  have a: "(\<exists>e. fst (extract_packets p source node t0) = Inl e) =
      (?fs = [] \<or> (\<exists>e. read_all (map snd ?fs) = Inl e))"
    using Dir_Path by (auto simp: extract_packets_def Let_def split: sum.splits)
  have b: "list_ex isl (map snd ?fs) =
      list_ex (\<lambda>(f, content). is_capture_name f \<and> isl content) entries"
    by (auto simp: list_ex_iff)
  have c: "(?fs = []) = (\<not> list_ex (\<lambda>(f, content). is_capture_name f) entries)"
    by (auto simp: list_ex_iff filter_empty_conv)
  show ?thesis using Dir_Path a b c by (auto simp: read_all_fails)
qed

lemma decodes_examples:
  "decodes (tcp_packet s d fl)" "decodes (udp_packet s d)" "\<not> decodes late_packet"
  by (simp_all add: decodes_def fromtimestamp_def tcp_packet_def udp_packet_def late_packet_def)

lemma ETLPipeline_init_stats:
  "total_packets (stats (ETLPipeline_init sk)) = 0"
  "processed_packets (stats (ETLPipeline_init sk)) = 0"
  "failed_packets (stats (ETLPipeline_init sk)) = 0"
  "connections_created (stats (ETLPipeline_init sk)) = 0"
  "attacks_detected (stats (ETLPipeline_init sk)) = 0"
  "logger (ETLPipeline_init sk) = sk"
  by (simp_all add: ETLPipeline_init_def)

text \<open>
  Claim C3 fails in the code. A packet whose capture time does not convert to a date (here
  \<open>10\<^sup>1\<^sup>2\<close> seconds, beyond the year 9999) makes \<^verbatim>\<open>_transform_packet\<close> catch its own
  exception and return \<^verbatim>\<open>None\<close>: the packet is counted in \<^verbatim>\<open>total_packets\<close> and neither
  as processed nor as failed. The run over a capture file holding that one packet
  succeeds with total 1, processed 0 and failed 0; and whatever else a capture file holds
  beside such a packet, whatever the sink and the batch size, processed plus failed
  stays below the total.
\<close>

theorem undecoded_packet_counted_nowhere:
  "success (fst (run (ETLPipeline_init local_sink) ''late.pcapng'' late_capture 100 0 1))
   \<and> total_packets (result_stats
         (fst (run (ETLPipeline_init local_sink) ''late.pcapng'' late_capture 100 0 1))) = 1
   \<and> processed_packets (result_stats
         (fst (run (ETLPipeline_init local_sink) ''late.pcapng'' late_capture 100 0 1))) = 0
   \<and> failed_packets (result_stats
         (fst (run (ETLPipeline_init local_sink) ''late.pcapng'' late_capture 100 0 1))) = 0
   \<and> processed_packets (result_stats (fst (run (ETLPipeline_init sk) ''late.pcapng''
           (File_Path (Inr (ps @ late_packet # qs))) bs t0 t1)))
       + failed_packets (result_stats (fst (run (ETLPipeline_init sk) ''late.pcapng''
           (File_Path (Inr (ps @ late_packet # qs))) bs t0 t1)))
     < total_packets (result_stats (fst (run (ETLPipeline_init sk) ''late.pcapng''
           (File_Path (Inr (ps @ late_packet # qs))) bs t0 t1)))"
proof -
  let ?p = "ETLPipeline_init local_sink"
  have e: "fst (extract_packets ?p ''late.pcapng'' late_capture 0) = Inr [late_packet]"
    by (simp add: late_capture_def extract_capture_file capture_names)
  have a: "success (fst (run ?p ''late.pcapng'' late_capture 100 0 1))"
    "total_packets (result_stats (fst (run ?p ''late.pcapng'' late_capture 100 0 1))) = 1"
    "processed_packets (result_stats (fst (run ?p ''late.pcapng'' late_capture 100 0 1))) = 0"
    "failed_packets (result_stats (fst (run ?p ''late.pcapng'' late_capture 100 0 1))) = 0"
    by (simp_all add: run_extracted(1,2,3,4)[OF e] decodes_examples(3) ETLPipeline_init_stats)
  let ?q = "ETLPipeline_init sk"
  let ?n = "File_Path (Inr (ps @ late_packet # qs))"
  have e2: "fst (extract_packets ?q ''late.pcapng'' ?n t0) = Inr (ps @ late_packet # qs)"
    by (simp add: extract_capture_file capture_names)
  have l: "length (filter decodes (ps @ late_packet # qs)) \<le> length ps + length qs"
    by (simp add: decodes_examples add_mono)
  have b: "processed_packets (result_stats (fst (run ?q ''late.pcapng'' ?n bs t0 t1)))
          + failed_packets (result_stats (fst (run ?q ''late.pcapng'' ?n bs t0 t1)))
        < total_packets (result_stats (fst (run ?q ''late.pcapng'' ?n bs t0 t1)))"
    using l by (simp add: run_extracted(2,3,4)[OF e2] ETLPipeline_init_stats)
  from a b show ?thesis by simp
qed

text \<open>
  Claim C4, as amended. A run succeeds exactly when extraction succeeded and the load
  phase did not raise: with an integer batch size, it raises exactly when the batch size
  is 0 and at least one packet was decoded (\<^verbatim>\<open>range\<close> refuses a zero step). What the sink
  does with the writes plays no part. Extraction fails exactly when the source path does
  not exist, when the file is not named \<^verbatim>\<open>.pcap\<close> or \<^verbatim>\<open>.pcapng\<close> or cannot be read, or
  when the directory holds no capture file or one that cannot be read.
\<close>

theorem run_success_iff:
  "success (fst (run p source node bs t0 t1)) =
     (case fst (extract_packets p source node t0) of
        Inl e \<Rightarrow> False
      | Inr packets \<Rightarrow> \<not> (bs = 0 \<and> filter decodes packets \<noteq> []))
   \<and> (\<exists>e. fst (extract_packets p source node t0) = Inl e) =
     (case node of
        No_Such_Path \<Rightarrow> True
      | File_Path content \<Rightarrow> isl content \<or> \<not> is_capture_name source
      | Dir_Path entries \<Rightarrow>
          list_ex (\<lambda>(f, content). is_capture_name f \<and> isl content) entries
          \<or> \<not> list_ex (\<lambda>(f, content). is_capture_name f) entries)"
proof -
  have "success (fst (run p source node bs t0 t1)) =
     (case fst (extract_packets p source node t0) of
        Inl e \<Rightarrow> False
      | Inr packets \<Rightarrow> \<not> (bs = 0 \<and> filter decodes packets \<noteq> []))"
  proof (cases "fst (extract_packets p source node t0)")
    case (Inl e)
    then show ?thesis by (simp add: run_extract_failed)
  next
    case (Inr packets)
    then show ?thesis by (simp add: run_extracted(1))
  qed
  then show ?thesis using extract_packets_fails[of p source node t0] by simp
qed

text \<open>
  The amended claim C4 with a sink whose every write fails: the run over the one-packet
  capture, batch size 100, succeeds.
\<close>

theorem run_success_iff_witness:
  "is_capture_name ''capture.pcap''
   \<and> load_batch failing_sink ''packets'' 0 = Dropped
   \<and> success (fst (run (ETLPipeline_init failing_sink) ''capture.pcap'' one_syn_capture 100 0 1))"
proof -
  let ?p = "ETLPipeline_init failing_sink"
  have e: "fst (extract_packets ?p ''capture.pcap'' one_syn_capture 0) =
      Inr [tcp_packet ''10.0.0.5'' ''10.0.0.1'' 2]"
    by (simp add: one_syn_capture_def extract_capture_file capture_names)
  have d: "load_batch failing_sink ''packets'' 0 = Dropped"
    by (simp add: load_batch_def failing_sink_def)
  from run_success_iff[of ?p "''capture.pcap''" one_syn_capture 100 0 1]
  have "success (fst (run ?p ''capture.pcap'' one_syn_capture 100 0 1))"
    by (simp add: e)
  then show ?thesis using d capture_names(1) by simp
qed

text \<open>
  Claim C4 as stated fails: with batch size 0 the extraction of the one-packet capture
  succeeds and the run reports failure.
\<close>

theorem zero_batch_size_run_fails:
  "fst (extract_packets (ETLPipeline_init local_sink) ''capture.pcap'' one_syn_capture 0) =
      Inr [tcp_packet ''10.0.0.5'' ''10.0.0.1'' 2]
   \<and> \<not> success (fst (run (ETLPipeline_init local_sink) ''capture.pcap'' one_syn_capture 0 0 1))
   \<and> run_error (fst (run (ETLPipeline_init local_sink) ''capture.pcap'' one_syn_capture 0 0 1))
       \<noteq> None"
proof -
  let ?p = "ETLPipeline_init local_sink"
  have e: "fst (extract_packets ?p ''capture.pcap'' one_syn_capture 0) =
      Inr [tcp_packet ''10.0.0.5'' ''10.0.0.1'' 2]"
    by (simp add: one_syn_capture_def extract_capture_file capture_names)
  have s: "\<not> success (fst (run ?p ''capture.pcap'' one_syn_capture 0 0 1))"
    by (simp add: run_extracted(1)[OF e] decodes_examples)
  have r: "run_error (fst (run ?p ''capture.pcap'' one_syn_capture 0 0 1)) \<noteq> None"
    using s e by (auto simp: run_alt split: sum.splits)
  from e s r show ?thesis by simp
qed

lemma syn_counter_update:
  "syn_counter (AList.update k e st) a = (if a = k then (case syn_packet_count e of None \<Rightarrow> 0 | Some c \<Rightarrow> c) else syn_counter st a)"
  by (simp add: syn_counter_def update_conv')

lemma udp_counter_update:
  "udp_counter (AList.update k e st) a = (if a = k then (case udp_packet_count e of None \<Rightarrow> 0 | Some c \<Rightarrow> c) else udp_counter st a)"
  by (simp add: udp_counter_def update_conv')

lemma update_ip_stats_counters:
  "syn_counter (update_ip_stats st pd dir) a = syn_counter st a \<and>
   udp_counter (update_ip_stats st pd dir) a = udp_counter st a"
proof (cases "case dir of Src_Dir \<Rightarrow> src_ip pd | Dst_Dir \<Rightarrow> dst_ip pd")
  case None
  then show ?thesis by (simp add: update_ip_stats_def)
next
  case (Some k)
  show ?thesis
  proof (cases "k = []")
    case True
    then show ?thesis using Some by (simp add: update_ip_stats_def)
  next
    case False
    show ?thesis
    proof (cases "map_of st k")
      case None
      then show ?thesis using Some False
        by (cases dir)
           (simp_all add: update_ip_stats_def Let_def syn_counter_update udp_counter_update
              split: option.splits,
            simp_all add: syn_counter_def udp_counter_def)
    next
      case e: (Some e)
      then show ?thesis using Some False
        by (cases dir)
           (simp_all add: update_ip_stats_def Let_def syn_counter_update udp_counter_update
              split: option.splits,
            simp_all add: syn_counter_def udp_counter_def)
    qed
  qed
qed

lemma update_ip_stats_present:
  "map_of st k \<noteq> None \<Longrightarrow> map_of (update_ip_stats st pd dir) k \<noteq> None"
proof (cases "case dir of Src_Dir \<Rightarrow> src_ip pd | Dst_Dir \<Rightarrow> dst_ip pd")
  case None
  then show "map_of st k \<noteq> None \<Longrightarrow> ?thesis" by (simp add: update_ip_stats_def)
next
  case (Some k')
  assume "map_of st k \<noteq> None"
  then show ?thesis using Some
    by (cases "k' = []") (simp_all add: update_ip_stats_def Let_def update_conv')
qed

lemma update_ip_stats_src_present:
  "src_ip pd = Some sip \<Longrightarrow> sip \<noteq> [] \<Longrightarrow> map_of (update_ip_stats st pd Src_Dir) sip \<noteq> None"
  by (simp add: update_ip_stats_def Let_def update_conv')


lemma detect_attacks_syn:
  assumes "src_ip pd = Some sip" "sip \<noteq> []" "pd_syn_no_ack pd" "map_of st sip = Some e"
  shows "detect_attacks pd st =
     (if 5 < syn_counter st sip + 1
      then Some \<lparr>ar_attack_type = ''SYN Flood'', ar_source_ip = sip,
                 ar_destination_ip = dst_ip pd, severity = ''high'',
                 ar_packet_count = syn_counter st sip + 1, ar_timestamp = pd_timestamp pd,
                 ar_port = dst_port pd, ar_flags = tcp_flags pd\<rparr>
      else None,
      AList.update sip (e\<lparr>syn_packet_count := Some (syn_counter st sip + 1)\<rparr>) st)"
  using assms
  by (simp add: detect_attacks_def pd_syn_no_ack_def syn_counter_def Let_def)

lemma detect_attacks_udp:
  assumes "src_ip pd = Some sip" "sip \<noteq> []" "protocol pd = ''UDP''" "map_of st sip = Some e"
  shows "detect_attacks pd st =
     (if 100 < udp_counter st sip + 1
      then Some \<lparr>ar_attack_type = ''UDP Flood'', ar_source_ip = sip,
                 ar_destination_ip = dst_ip pd, severity = ''medium'',
                 ar_packet_count = udp_counter st sip + 1, ar_timestamp = pd_timestamp pd,
                 ar_port = dst_port pd, ar_flags = None\<rparr>
      else None,
      AList.update sip (e\<lparr>udp_packet_count := Some (udp_counter st sip + 1)\<rparr>) st)"
  using assms
  by (simp add: detect_attacks_def udp_counter_def Let_def)

lemma detect_attacks_other:
  assumes "\<not> (\<exists>sip. src_ip pd = Some sip \<and> sip \<noteq> [] \<and> (pd_syn_no_ack pd \<or> protocol pd = ''UDP''))"
  shows "detect_attacks pd st = (None, st)"
proof (cases "src_ip pd")
  case None
  then show ?thesis by (simp add: detect_attacks_def)
next
  case (Some sip)
  show ?thesis
  proof (cases "sip = []")
    case True
    then show ?thesis using Some by (simp add: detect_attacks_def)
  next
    case False
    then have "\<not> pd_syn_no_ack pd" "protocol pd \<noteq> ''UDP''" using assms Some by auto
    then show ?thesis using Some False
      by (simp add: detect_attacks_def pd_syn_no_ack_def)
  qed
qed


lemma transform_packet_fields:
  assumes "transform_packet pk i = Some pd"
  shows "(src_ip pd = Some a \<and> a \<noteq> [] \<and> pd_syn_no_ack pd) = syn_without_ack a pk"
    and "(src_ip pd = Some a \<and> a \<noteq> [] \<and> protocol pd = ''UDP'') = udp_without_tcp a pk"
proof -
  have d: "decodes pk" using assms transform_packet_None[of pk i] by simp
  then obtain ts where ts: "fromtimestamp (pkt_time pk) = Inr ts"
    by (cases "fromtimestamp (pkt_time pk)") (simp_all add: decodes_def)
  have "(src_ip pd = Some a \<and> a \<noteq> [] \<and> pd_syn_no_ack pd) = syn_without_ack a pk
      \<and> (src_ip pd = Some a \<and> a \<noteq> [] \<and> protocol pd = ''UDP'') = udp_without_tcp a pk"
  proof (cases "IP pk")
    case None
    then show ?thesis using assms ts d
      by (auto simp: transform_packet_def Let_def syn_without_ack_def udp_without_tcp_def
          pd_syn_no_ack_def)
  next
    case ip: (Some ipl)
    show ?thesis
    proof (cases "TCP pk")
      case (Some t)
      then show ?thesis using assms ts d ip
        by (auto simp: transform_packet_def Let_def syn_without_ack_def udp_without_tcp_def
            pd_syn_no_ack_def)
    next
      case tcp: None
      show ?thesis
      proof (cases "UDP pk")
        case (Some u)
        then show ?thesis using assms ts d ip tcp
          by (auto simp: transform_packet_def Let_def syn_without_ack_def udp_without_tcp_def
              pd_syn_no_ack_def)
      next
        case udp: None
        show ?thesis
        proof (cases "ICMP pk")
          case (Some ic)
          then show ?thesis using assms ts d ip tcp udp
            by (auto simp: transform_packet_def Let_def syn_without_ack_def udp_without_tcp_def
                pd_syn_no_ack_def)
        next
          case icmp: None
          show ?thesis using assms ts d ip tcp udp icmp
            by (cases "ARP pk")
               (auto simp: transform_packet_def Let_def syn_without_ack_def udp_without_tcp_def
                pd_syn_no_ack_def)
        qed
      qed
    qed
  qed
  then show "(src_ip pd = Some a \<and> a \<noteq> [] \<and> pd_syn_no_ack pd) = syn_without_ack a pk"
    and "(src_ip pd = Some a \<and> a \<noteq> [] \<and> protocol pd = ''UDP'') = udp_without_tcp a pk"
    by simp_all
qed

lemma syn_not_udp: "pd_syn_no_ack pd \<Longrightarrow> protocol pd \<noteq> ''UDP''"
  by (auto simp: pd_syn_no_ack_def)


lemma counter_of_entry:
  "map_of st k = Some e \<Longrightarrow>
     (case syn_packet_count e of None \<Rightarrow> 0 | Some c \<Rightarrow> c) = syn_counter st k
   \<and> (case udp_packet_count e of None \<Rightarrow> 0 | Some c \<Rightarrow> c) = udp_counter st k"
  by (simp add: syn_counter_def udp_counter_def)

lemma detect_after_updates:
  assumes tp: "transform_packet pk i = Some pd"
  shows "syn_without_ack a pk \<Longrightarrow>
           fst (detect_attacks pd (update_ip_stats (update_ip_stats st pd Src_Dir) pd Dst_Dir)) =
             (if 5 < syn_counter st a + 1
              then Some (syn_flood_record pd a (syn_counter st a + 1)) else None)"
    and "udp_without_tcp a pk \<Longrightarrow>
           fst (detect_attacks pd (update_ip_stats (update_ip_stats st pd Src_Dir) pd Dst_Dir)) =
             (if 100 < udp_counter st a + 1
              then Some (udp_flood_record pd a (udp_counter st a + 1)) else None)"
    and "\<not> (\<exists>b. syn_without_ack b pk \<or> udp_without_tcp b pk) \<Longrightarrow>
           fst (detect_attacks pd (update_ip_stats (update_ip_stats st pd Src_Dir) pd Dst_Dir)) = None"
    and "a \<noteq> [] \<Longrightarrow>
           syn_counter (snd (detect_attacks pd
               (update_ip_stats (update_ip_stats st pd Src_Dir) pd Dst_Dir))) a =
             syn_counter st a + (if syn_without_ack a pk then 1 else 0)"
    and "a \<noteq> [] \<Longrightarrow>
           udp_counter (snd (detect_attacks pd
               (update_ip_stats (update_ip_stats st pd Src_Dir) pd Dst_Dir))) a =
             udp_counter st a + (if udp_without_tcp a pk then 1 else 0)"
proof -
  let ?st2 = "update_ip_stats (update_ip_stats st pd Src_Dir) pd Dst_Dir"
  have cnt: "\<And>b. syn_counter ?st2 b = syn_counter st b" "\<And>b. udp_counter ?st2 b = udp_counter st b"
    by (simp_all add: update_ip_stats_counters)
  have present: "\<And>sip. src_ip pd = Some sip \<Longrightarrow> sip \<noteq> [] \<Longrightarrow> \<exists>e. map_of ?st2 sip = Some e"
  proof -
    fix sip assume "src_ip pd = Some sip" "sip \<noteq> []"
    then have "map_of (update_ip_stats st pd Src_Dir) sip \<noteq> None"
      by (rule update_ip_stats_src_present)
    then have "map_of ?st2 sip \<noteq> None" by (rule update_ip_stats_present)
    then show "\<exists>e. map_of ?st2 sip = Some e" by auto
  qed
  have syn: "\<And>b. (src_ip pd = Some b \<and> b \<noteq> [] \<and> pd_syn_no_ack pd) = syn_without_ack b pk"
    and udp: "\<And>b. (src_ip pd = Some b \<and> b \<noteq> [] \<and> protocol pd = ''UDP'') = udp_without_tcp b pk"
    using transform_packet_fields[OF tp] by simp_all
  show "syn_without_ack a pk \<Longrightarrow>
           fst (detect_attacks pd ?st2) =
             (if 5 < syn_counter st a + 1
              then Some (syn_flood_record pd a (syn_counter st a + 1)) else None)"
  proof -
    assume "syn_without_ack a pk"
    then have f: "src_ip pd = Some a" "a \<noteq> []" "pd_syn_no_ack pd" using syn[of a] by simp_all
    from present[OF f(1,2)] obtain e where e: "map_of ?st2 a = Some e" by auto
    show ?thesis
      by (simp add: detect_attacks_syn[OF f e] cnt syn_flood_record_def)
  qed
  show "udp_without_tcp a pk \<Longrightarrow>
           fst (detect_attacks pd ?st2) =
             (if 100 < udp_counter st a + 1
              then Some (udp_flood_record pd a (udp_counter st a + 1)) else None)"
  proof -
    assume "udp_without_tcp a pk"
    then have f: "src_ip pd = Some a" "a \<noteq> []" "protocol pd = ''UDP''" using udp[of a] by simp_all
    from present[OF f(1,2)] obtain e where e: "map_of ?st2 a = Some e" by auto
    show ?thesis
      by (simp add: detect_attacks_udp[OF f e] cnt udp_flood_record_def)
  qed
  show "\<not> (\<exists>b. syn_without_ack b pk \<or> udp_without_tcp b pk) \<Longrightarrow> fst (detect_attacks pd ?st2) = None"
  proof -
    assume n: "\<not> (\<exists>b. syn_without_ack b pk \<or> udp_without_tcp b pk)"
    have "\<not> (\<exists>sip. src_ip pd = Some sip \<and> sip \<noteq> [] \<and> (pd_syn_no_ack pd \<or> protocol pd = ''UDP''))"
      using n syn udp by blast
    then show ?thesis by (simp add: detect_attacks_other)
  qed
  show "a \<noteq> [] \<Longrightarrow> syn_counter (snd (detect_attacks pd ?st2)) a =
             syn_counter st a + (if syn_without_ack a pk then 1 else 0)"
  proof -
    assume a: "a \<noteq> []"
    consider (s) sip where "src_ip pd = Some sip" "sip \<noteq> []" "pd_syn_no_ack pd"
      | (u) sip where "src_ip pd = Some sip" "sip \<noteq> []" "protocol pd = ''UDP''"
      | (o) "\<not> (\<exists>sip. src_ip pd = Some sip \<and> sip \<noteq> [] \<and> (pd_syn_no_ack pd \<or> protocol pd = ''UDP''))"
      by blast
    then show ?thesis
    proof cases
      case s
      from present[OF s(1,2)] obtain e where e: "map_of ?st2 sip = Some e" by auto
      have q: "syn_without_ack a pk = (a = sip)" using syn[of a] s by auto
      show ?thesis
        by (simp add: detect_attacks_syn[OF s e] syn_counter_update cnt q)
    next
      case u
      from present[OF u(1,2)] obtain e where e: "map_of ?st2 sip = Some e" by auto
      have "\<not> pd_syn_no_ack pd" using u(3) syn_not_udp by blast
      then have q: "\<not> syn_without_ack a pk" using syn[of a] by simp
      have k: "(case syn_packet_count e of None \<Rightarrow> 0 | Some c \<Rightarrow> c) = syn_counter st sip"
        using counter_of_entry[OF e] cnt by simp
      show ?thesis
        by (simp add: detect_attacks_udp[OF u e] syn_counter_update cnt q k)
    next
      case o
      then have q: "\<not> syn_without_ack a pk" using syn[of a] by blast
      show ?thesis by (simp add: detect_attacks_other[OF o] cnt q)
    qed
  qed
  show "a \<noteq> [] \<Longrightarrow> udp_counter (snd (detect_attacks pd ?st2)) a =
             udp_counter st a + (if udp_without_tcp a pk then 1 else 0)"
  proof -
    assume a: "a \<noteq> []"
    consider (s) sip where "src_ip pd = Some sip" "sip \<noteq> []" "pd_syn_no_ack pd"
      | (u) sip where "src_ip pd = Some sip" "sip \<noteq> []" "protocol pd = ''UDP''"
      | (o) "\<not> (\<exists>sip. src_ip pd = Some sip \<and> sip \<noteq> [] \<and> (pd_syn_no_ack pd \<or> protocol pd = ''UDP''))"
      by blast
    then show ?thesis
    proof cases
      case s
      from present[OF s(1,2)] obtain e where e: "map_of ?st2 sip = Some e" by auto
      have "protocol pd \<noteq> ''UDP''" using s(3) by (rule syn_not_udp)
      then have q: "\<not> udp_without_tcp a pk" using udp[of a] by simp
      have k: "(case udp_packet_count e of None \<Rightarrow> 0 | Some c \<Rightarrow> c) = udp_counter st sip"
        using counter_of_entry[OF e] cnt by simp
      show ?thesis
        by (simp add: detect_attacks_syn[OF s e] udp_counter_update cnt q k)
    next
      case u
      from present[OF u(1,2)] obtain e where e: "map_of ?st2 sip = Some e" by auto
      have q: "udp_without_tcp a pk = (a = sip)" using udp[of a] u by auto
      show ?thesis
        by (simp add: detect_attacks_udp[OF u e] udp_counter_update cnt q)
    next
      case o
      then have q: "\<not> udp_without_tcp a pk" using udp[of a] by blast
      show ?thesis by (simp add: detect_attacks_other[OF o] cnt q)
    qed
  qed
qed


lemma transform_step_detect:
  "a \<noteq> [] \<Longrightarrow> syn_counter (ts_ip_stats (transform_step s pk i)) a =
      syn_counter (ts_ip_stats s) a + (if syn_without_ack a pk then 1 else 0)"
  "a \<noteq> [] \<Longrightarrow> udp_counter (ts_ip_stats (transform_step s pk i)) a =
      udp_counter (ts_ip_stats s) a + (if udp_without_tcp a pk then 1 else 0)"
  "syn_without_ack a pk \<Longrightarrow>
     \<exists>pd. transform_packet pk i = Some pd
       \<and> ts_attacks (transform_step s pk i) =
           ts_attacks s @ (if 5 < syn_counter (ts_ip_stats s) a + 1
                           then [syn_flood_record pd a (syn_counter (ts_ip_stats s) a + 1)] else [])
       \<and> attacks_detected (ts_stats (transform_step s pk i)) =
           attacks_detected (ts_stats s) + (if 5 < syn_counter (ts_ip_stats s) a + 1 then 1 else 0)"
  "udp_without_tcp a pk \<Longrightarrow>
     \<exists>pd. transform_packet pk i = Some pd
       \<and> ts_attacks (transform_step s pk i) =
           ts_attacks s @ (if 100 < udp_counter (ts_ip_stats s) a + 1
                           then [udp_flood_record pd a (udp_counter (ts_ip_stats s) a + 1)] else [])
       \<and> attacks_detected (ts_stats (transform_step s pk i)) =
           attacks_detected (ts_stats s) + (if 100 < udp_counter (ts_ip_stats s) a + 1 then 1 else 0)"
  "\<not> (\<exists>b. syn_without_ack b pk \<or> udp_without_tcp b pk) \<Longrightarrow>
     ts_attacks (transform_step s pk i) = ts_attacks s
     \<and> attacks_detected (ts_stats (transform_step s pk i)) = attacks_detected (ts_stats s)"
proof -
  have und: "transform_packet pk i = None \<Longrightarrow> \<not> syn_without_ack b pk \<and> \<not> udp_without_tcp b pk
      \<and> transform_step s pk i = s" for b
    using transform_packet_None[of pk i]
    by (simp add: syn_without_ack_def udp_without_tcp_def transform_step_undecoded)
  show "a \<noteq> [] \<Longrightarrow> syn_counter (ts_ip_stats (transform_step s pk i)) a =
      syn_counter (ts_ip_stats s) a + (if syn_without_ack a pk then 1 else 0)"
  proof (cases "transform_packet pk i")
    case None
    then show ?thesis using und[of a] by simp
  next
    case (Some pd)
    assume "a \<noteq> []"
    then show ?thesis
      by (simp add: transform_step_decoded(2)[OF Some] detect_after_updates(4)[OF Some])
  qed
  show "a \<noteq> [] \<Longrightarrow> udp_counter (ts_ip_stats (transform_step s pk i)) a =
      udp_counter (ts_ip_stats s) a + (if udp_without_tcp a pk then 1 else 0)"
  proof (cases "transform_packet pk i")
    case None
    then show ?thesis using und[of a] by simp
  next
    case (Some pd)
    assume "a \<noteq> []"
    then show ?thesis
      by (simp add: transform_step_decoded(2)[OF Some] detect_after_updates(5)[OF Some])
  qed
  show "syn_without_ack a pk \<Longrightarrow>
     \<exists>pd. transform_packet pk i = Some pd
       \<and> ts_attacks (transform_step s pk i) =
           ts_attacks s @ (if 5 < syn_counter (ts_ip_stats s) a + 1
                           then [syn_flood_record pd a (syn_counter (ts_ip_stats s) a + 1)] else [])
       \<and> attacks_detected (ts_stats (transform_step s pk i)) =
           attacks_detected (ts_stats s) + (if 5 < syn_counter (ts_ip_stats s) a + 1 then 1 else 0)"
  proof (cases "transform_packet pk i")
    case None
    assume "syn_without_ack a pk"
    then show ?thesis using und[OF None, of a] by simp
  next
    case (Some pd)
    assume q: "syn_without_ack a pk"
    show ?thesis
      by (simp add: Some transform_step_decoded(3,4)[OF Some] detect_after_updates(1)[OF Some q])
  qed
  show "udp_without_tcp a pk \<Longrightarrow>
     \<exists>pd. transform_packet pk i = Some pd
       \<and> ts_attacks (transform_step s pk i) =
           ts_attacks s @ (if 100 < udp_counter (ts_ip_stats s) a + 1
                           then [udp_flood_record pd a (udp_counter (ts_ip_stats s) a + 1)] else [])
       \<and> attacks_detected (ts_stats (transform_step s pk i)) =
           attacks_detected (ts_stats s) + (if 100 < udp_counter (ts_ip_stats s) a + 1 then 1 else 0)"
  proof (cases "transform_packet pk i")
    case None
    assume "udp_without_tcp a pk"
    then show ?thesis using und[OF None, of a] by simp
  next
    case (Some pd)
    assume q: "udp_without_tcp a pk"
    show ?thesis
      by (simp add: Some transform_step_decoded(3,4)[OF Some] detect_after_updates(2)[OF Some q])
  qed
  show "\<not> (\<exists>b. syn_without_ack b pk \<or> udp_without_tcp b pk) \<Longrightarrow>
     ts_attacks (transform_step s pk i) = ts_attacks s
     \<and> attacks_detected (ts_stats (transform_step s pk i)) = attacks_detected (ts_stats s)"
  proof (cases "transform_packet pk i")
    case None
    then show ?thesis using und[OF None, of a] by simp
  next
    case (Some pd)
    assume q: "\<not> (\<exists>b. syn_without_ack b pk \<or> udp_without_tcp b pk)"
    show ?thesis
      by (simp add: transform_step_decoded(3,4)[OF Some] detect_after_updates(3)[OF Some q])
  qed
qed

lemma transform_loop_append:
  "transform_loop s (ps @ qs) i = transform_loop (transform_loop s ps i) qs (i + length ps)"
  by (induction ps arbitrary: s i) simp_all

lemma transform_loop_detect:
  "a \<noteq> [] \<Longrightarrow>
   syn_counter (ts_ip_stats (transform_loop s ps i)) a =
      syn_counter (ts_ip_stats s) a + length (filter (syn_without_ack a) ps)
   \<and> udp_counter (ts_ip_stats (transform_loop s ps i)) a =
      udp_counter (ts_ip_stats s) a + length (filter (udp_without_tcp a) ps)"
proof (induction ps arbitrary: s i)
  case Nil
  then show ?case by simp
next
  case (Cons pk ps)
  from Cons.IH[OF Cons.prems, of "transform_step s pk i" "Suc i"]
  show ?case by (simp add: transform_step_detect(1,2)[OF Cons.prems])
qed

lemma transform_append_one:
  "td_attacks (fst (transform p (ps @ [pk]))) =
     ts_attacks (transform_step
        (transform_loop \<lparr>ts_packets = [], connections_map = [], ts_attacks = [],
           ts_ip_stats = [], ts_stats = stats p\<rparr> ps 0) pk (length ps))"
  "attacks_detected (stats (snd (transform p (ps @ [pk])))) =
     attacks_detected (ts_stats (transform_step
        (transform_loop \<lparr>ts_packets = [], connections_map = [], ts_attacks = [],
           ts_ip_stats = [], ts_stats = stats p\<rparr> ps 0) pk (length ps)))"
  "td_attacks (fst (transform p ps)) =
     ts_attacks (transform_loop \<lparr>ts_packets = [], connections_map = [], ts_attacks = [],
           ts_ip_stats = [], ts_stats = stats p\<rparr> ps 0)"
  "attacks_detected (stats (snd (transform p ps))) =
     attacks_detected (ts_stats (transform_loop \<lparr>ts_packets = [], connections_map = [],
           ts_attacks = [], ts_ip_stats = [], ts_stats = stats p\<rparr> ps 0))"
  by (simp_all add: transform_def Let_def transform_loop_append)

lemma counters_from_start:
  "a \<noteq> [] \<Longrightarrow>
   syn_counter (ts_ip_stats (transform_loop \<lparr>ts_packets = [], connections_map = [],
       ts_attacks = [], ts_ip_stats = [], ts_stats = x\<rparr> ps 0)) a =
     length (filter (syn_without_ack a) ps)
   \<and> udp_counter (ts_ip_stats (transform_loop \<lparr>ts_packets = [], connections_map = [],
       ts_attacks = [], ts_ip_stats = [], ts_stats = x\<rparr> ps 0)) a =
     length (filter (udp_without_tcp a) ps)"
  using transform_loop_detect[of a "\<lparr>ts_packets = [], connections_map = [],
       ts_attacks = [], ts_ip_stats = [], ts_stats = x\<rparr>" ps 0]
  by (simp add: syn_counter_def udp_counter_def)

lemma qualifying_source:
  "syn_without_ack b pk \<Longrightarrow> b \<noteq> [] \<and> syn_without_ack a pk = (a = b) \<and> \<not> udp_without_tcp a pk"
  "udp_without_tcp b pk \<Longrightarrow> b \<noteq> [] \<and> udp_without_tcp a pk = (a = b) \<and> \<not> syn_without_ack a pk"
  by (auto simp: syn_without_ack_def udp_without_tcp_def split: option.splits)

lemma transform_append_step:
  "(syn_without_ack a pk \<longrightarrow>
      (\<exists>pd. transform_packet pk (length ps) = Some pd
         \<and> td_attacks (fst (transform p (ps @ [pk]))) =
             td_attacks (fst (transform p ps)) @
               (if 5 < length (filter (syn_without_ack a) ps) + 1
                then [syn_flood_record pd a (length (filter (syn_without_ack a) ps) + 1)]
                else [])
         \<and> attacks_detected (stats (snd (transform p (ps @ [pk])))) =
             attacks_detected (stats (snd (transform p ps))) +
               (if 5 < length (filter (syn_without_ack a) ps) + 1 then 1 else 0)))
   \<and> (udp_without_tcp a pk \<longrightarrow>
      (\<exists>pd. transform_packet pk (length ps) = Some pd
         \<and> td_attacks (fst (transform p (ps @ [pk]))) =
             td_attacks (fst (transform p ps)) @
               (if 100 < length (filter (udp_without_tcp a) ps) + 1
                then [udp_flood_record pd a (length (filter (udp_without_tcp a) ps) + 1)]
                else [])
         \<and> attacks_detected (stats (snd (transform p (ps @ [pk])))) =
             attacks_detected (stats (snd (transform p ps))) +
               (if 100 < length (filter (udp_without_tcp a) ps) + 1 then 1 else 0)))
   \<and> (\<not> (\<exists>b. syn_without_ack b pk \<or> udp_without_tcp b pk) \<longrightarrow>
        td_attacks (fst (transform p (ps @ [pk]))) = td_attacks (fst (transform p ps))
        \<and> attacks_detected (stats (snd (transform p (ps @ [pk])))) =
            attacks_detected (stats (snd (transform p ps))))"
proof -
  let ?s = "transform_loop \<lparr>ts_packets = [], connections_map = [], ts_attacks = [],
           ts_ip_stats = [], ts_stats = stats p\<rparr> ps 0"
  have c: "a \<noteq> [] \<Longrightarrow> syn_counter (ts_ip_stats ?s) a = length (filter (syn_without_ack a) ps)
      \<and> udp_counter (ts_ip_stats ?s) a = length (filter (udp_without_tcp a) ps)"
    by (rule counters_from_start)
  have 1: "syn_without_ack a pk \<longrightarrow>
      (\<exists>pd. transform_packet pk (length ps) = Some pd
         \<and> td_attacks (fst (transform p (ps @ [pk]))) =
             td_attacks (fst (transform p ps)) @
               (if 5 < length (filter (syn_without_ack a) ps) + 1
                then [syn_flood_record pd a (length (filter (syn_without_ack a) ps) + 1)]
                else [])
         \<and> attacks_detected (stats (snd (transform p (ps @ [pk])))) =
             attacks_detected (stats (snd (transform p ps))) +
               (if 5 < length (filter (syn_without_ack a) ps) + 1 then 1 else 0))"
  proof
    assume q: "syn_without_ack a pk"
    then have "a \<noteq> []" by (simp add: syn_without_ack_def)
    from c[OF this] transform_step_detect(3)[OF q, of "length ps" ?s]
    show "\<exists>pd. transform_packet pk (length ps) = Some pd
         \<and> td_attacks (fst (transform p (ps @ [pk]))) =
             td_attacks (fst (transform p ps)) @
               (if 5 < length (filter (syn_without_ack a) ps) + 1
                then [syn_flood_record pd a (length (filter (syn_without_ack a) ps) + 1)]
                else [])
         \<and> attacks_detected (stats (snd (transform p (ps @ [pk])))) =
             attacks_detected (stats (snd (transform p ps))) +
               (if 5 < length (filter (syn_without_ack a) ps) + 1 then 1 else 0)"
      by (auto simp: transform_append_one transform_loop_append cong: if_cong)
  qed
  have 2: "udp_without_tcp a pk \<longrightarrow>
      (\<exists>pd. transform_packet pk (length ps) = Some pd
         \<and> td_attacks (fst (transform p (ps @ [pk]))) =
             td_attacks (fst (transform p ps)) @
               (if 100 < length (filter (udp_without_tcp a) ps) + 1
                then [udp_flood_record pd a (length (filter (udp_without_tcp a) ps) + 1)]
                else [])
         \<and> attacks_detected (stats (snd (transform p (ps @ [pk])))) =
             attacks_detected (stats (snd (transform p ps))) +
               (if 100 < length (filter (udp_without_tcp a) ps) + 1 then 1 else 0))"
  proof
    assume q: "udp_without_tcp a pk"
    then have "a \<noteq> []" by (simp add: udp_without_tcp_def)
    from c[OF this] transform_step_detect(4)[OF q, of "length ps" ?s]
    show "\<exists>pd. transform_packet pk (length ps) = Some pd
         \<and> td_attacks (fst (transform p (ps @ [pk]))) =
             td_attacks (fst (transform p ps)) @
               (if 100 < length (filter (udp_without_tcp a) ps) + 1
                then [udp_flood_record pd a (length (filter (udp_without_tcp a) ps) + 1)]
                else [])
         \<and> attacks_detected (stats (snd (transform p (ps @ [pk])))) =
             attacks_detected (stats (snd (transform p ps))) +
               (if 100 < length (filter (udp_without_tcp a) ps) + 1 then 1 else 0)"
      by (auto simp: transform_append_one transform_loop_append cong: if_cong)
  qed
  have 3: "\<not> (\<exists>b. syn_without_ack b pk \<or> udp_without_tcp b pk) \<longrightarrow>
        td_attacks (fst (transform p (ps @ [pk]))) = td_attacks (fst (transform p ps))
        \<and> attacks_detected (stats (snd (transform p (ps @ [pk])))) =
            attacks_detected (stats (snd (transform p ps)))"
  proof
    assume q: "\<not> (\<exists>b. syn_without_ack b pk \<or> udp_without_tcp b pk)"
    from transform_step_detect(5)[OF q, of ?s "length ps"]
    show "td_attacks (fst (transform p (ps @ [pk]))) = td_attacks (fst (transform p ps))
        \<and> attacks_detected (stats (snd (transform p (ps @ [pk])))) =
            attacks_detected (stats (snd (transform p ps)))"
      by (simp add: transform_append_one transform_loop_append)
  qed
  from 1 2 3 show ?thesis by (intro conjI)
qed


lemma transform_Nil:
  "fst (transform p []) = \<lparr>td_packets = [], td_connections = [], td_attacks = [], ip_statistics = []\<rparr>"
  by (simp add: transform_def)

lemma attack_records_total:
  "length (filter (\<lambda>r. ar_attack_type r = ''SYN Flood'' \<and> ar_source_ip r = a)
            (td_attacks (fst (transform p ps)))) =
     length (filter (syn_without_ack a) ps) - 5
   \<and> length (filter (\<lambda>r. ar_attack_type r = ''UDP Flood'' \<and> ar_source_ip r = a)
            (td_attacks (fst (transform p ps)))) =
     length (filter (udp_without_tcp a) ps) - 100"
proof (induction ps rule: rev_induct)
  case Nil
  then show ?case by (simp add: transform_Nil)
next
  case (snoc pk ps)
  consider (s) b where "syn_without_ack b pk" | (u) b where "udp_without_tcp b pk"
    | (n) "\<not> (\<exists>b. syn_without_ack b pk \<or> udp_without_tcp b pk)"
    by blast
  then show ?case
  proof cases
    case s
    from transform_append_step[of b pk ps p] s obtain pd where
      at: "td_attacks (fst (transform p (ps @ [pk]))) =
             td_attacks (fst (transform p ps)) @
               (if 5 < length (filter (syn_without_ack b) ps) + 1
                then [syn_flood_record pd b (length (filter (syn_without_ack b) ps) + 1)]
                else [])"
      by blast
    have qs: "\<And>c. syn_without_ack c pk = (c = b)" "\<And>c. \<not> udp_without_tcp c pk"
      using qualifying_source(1)[OF s] by simp_all
    show ?thesis using snoc.IH
      by (cases "a = b") (auto simp: at qs syn_flood_record_def)
  next
    case u
    from transform_append_step[of b pk ps p] u obtain pd where
      at: "td_attacks (fst (transform p (ps @ [pk]))) =
             td_attacks (fst (transform p ps)) @
               (if 100 < length (filter (udp_without_tcp b) ps) + 1
                then [udp_flood_record pd b (length (filter (udp_without_tcp b) ps) + 1)]
                else [])"
      by blast
    have qs: "\<And>c. udp_without_tcp c pk = (c = b)" "\<And>c. \<not> syn_without_ack c pk"
      using qualifying_source(2)[OF u] by simp_all
    show ?thesis using snoc.IH
      by (cases "a = b") (auto simp: at qs udp_flood_record_def)
  next
    case n
    then have qs: "\<not> syn_without_ack a pk" "\<not> udp_without_tcp a pk" by auto
    from transform_append_step[of a pk ps p] n
    have at: "td_attacks (fst (transform p (ps @ [pk]))) = td_attacks (fst (transform p ps))"
      by blast
    show ?thesis using snoc.IH by (simp add: at qs)
  qed
qed




lemma syn_examples:
  "syn_without_ack ''10.0.0.5'' (tcp_packet ''10.0.0.5'' ''10.0.0.1'' 2)"
  by (simp add: syn_without_ack_def decodes_def fromtimestamp_def tcp_packet_def)



text \<open>
  Claim C10. Within one \<^verbatim>\<open>transform\<close>, the packet that follows a sequence \<open>ps\<close> adds an
  attack record, and one to \<^verbatim>\<open>attacks_detected\<close>, exactly in two cases: it is a decoded
  TCP packet of a source \<open>a\<close> with SYN set and ACK clear and, counted with it, the packets
  of that kind from \<open>a\<close> so far are more than 5; or it is a decoded UDP packet of \<open>a\<close> and,
  counted with it, the UDP packets from \<open>a\<close> so far are more than 100. The record carries
  the count. Nothing is deduplicated: the records of a source number its qualifying
  packets less 5 (SYN), less 100 (UDP).
\<close>

theorem attack_record_per_packet_past_threshold:
  "(syn_without_ack a pk \<longrightarrow>
      (\<exists>pd. transform_packet pk (length ps) = Some pd
         \<and> td_attacks (fst (transform p (ps @ [pk]))) =
             td_attacks (fst (transform p ps)) @
               (if 5 < length (filter (syn_without_ack a) ps) + 1
                then [syn_flood_record pd a (length (filter (syn_without_ack a) ps) + 1)]
                else [])
         \<and> attacks_detected (stats (snd (transform p (ps @ [pk])))) =
             attacks_detected (stats (snd (transform p ps))) +
               (if 5 < length (filter (syn_without_ack a) ps) + 1 then 1 else 0)))
   \<and> (udp_without_tcp a pk \<longrightarrow>
      (\<exists>pd. transform_packet pk (length ps) = Some pd
         \<and> td_attacks (fst (transform p (ps @ [pk]))) =
             td_attacks (fst (transform p ps)) @
               (if 100 < length (filter (udp_without_tcp a) ps) + 1
                then [udp_flood_record pd a (length (filter (udp_without_tcp a) ps) + 1)]
                else [])
         \<and> attacks_detected (stats (snd (transform p (ps @ [pk])))) =
             attacks_detected (stats (snd (transform p ps))) +
               (if 100 < length (filter (udp_without_tcp a) ps) + 1 then 1 else 0)))
   \<and> (\<not> (\<exists>b. syn_without_ack b pk \<or> udp_without_tcp b pk) \<longrightarrow>
        td_attacks (fst (transform p (ps @ [pk]))) = td_attacks (fst (transform p ps))
        \<and> attacks_detected (stats (snd (transform p (ps @ [pk])))) =
            attacks_detected (stats (snd (transform p ps))))
   \<and> length (filter (\<lambda>r. ar_attack_type r = ''SYN Flood'' \<and> ar_source_ip r = a)
            (td_attacks (fst (transform p ps)))) =
       length (filter (syn_without_ack a) ps) - 5
   \<and> length (filter (\<lambda>r. ar_attack_type r = ''UDP Flood'' \<and> ar_source_ip r = a)
            (td_attacks (fst (transform p ps)))) =
       length (filter (udp_without_tcp a) ps) - 100"
  by (rule conjI[OF conjunct1[OF transform_append_step]
        conjI[OF conjunct1[OF conjunct2[OF transform_append_step]]
          conjI[OF conjunct2[OF conjunct2[OF transform_append_step]] attack_records_total]]])

text \<open>
  Claim C10 at a capture of SYN packets of 10.0.0.5: after six of them the seventh adds a
  record with count 7, and the six had left one record.
\<close>

theorem attack_record_per_packet_past_threshold_witness:
  "syn_without_ack ''10.0.0.5'' (tcp_packet ''10.0.0.5'' ''10.0.0.1'' 2)
   \<and> (\<exists>pd. transform_packet (tcp_packet ''10.0.0.5'' ''10.0.0.1'' 2) 6 = Some pd
        \<and> td_attacks (fst (transform (ETLPipeline_init local_sink)
              (replicate 6 (tcp_packet ''10.0.0.5'' ''10.0.0.1'' 2)
                 @ [tcp_packet ''10.0.0.5'' ''10.0.0.1'' 2]))) =
            td_attacks (fst (transform (ETLPipeline_init local_sink)
              (replicate 6 (tcp_packet ''10.0.0.5'' ''10.0.0.1'' 2)))) @
              [syn_flood_record pd ''10.0.0.5'' 7])
   \<and> attacks_detected (stats (snd (transform (ETLPipeline_init local_sink)
         (replicate 6 (tcp_packet ''10.0.0.5'' ''10.0.0.1'' 2)
            @ [tcp_packet ''10.0.0.5'' ''10.0.0.1'' 2])))) =
       attacks_detected (stats (snd (transform (ETLPipeline_init local_sink)
         (replicate 6 (tcp_packet ''10.0.0.5'' ''10.0.0.1'' 2))))) + 1
   \<and> length (filter (\<lambda>r. ar_attack_type r = ''SYN Flood'' \<and> ar_source_ip r = ''10.0.0.5'')
        (td_attacks (fst (transform (ETLPipeline_init local_sink)
           (replicate 6 (tcp_packet ''10.0.0.5'' ''10.0.0.1'' 2)))))) = 1"
proof -
  let ?pk = "tcp_packet ''10.0.0.5'' ''10.0.0.1'' 2"
  have n: "length (filter (syn_without_ack ''10.0.0.5'') (replicate 6 ?pk)) = 6"
    by (simp add: syn_examples)
  have l: "length (replicate 6 ?pk) = 6" by simp
  note c = attack_record_per_packet_past_threshold[of "''10.0.0.5''" ?pk "replicate 6 ?pk"
      "ETLPipeline_init local_sink"]
  from conjunct1[OF c, THEN mp, OF syn_examples]
  have s: "\<exists>pd. transform_packet ?pk 6 = Some pd
     \<and> td_attacks (fst (transform (ETLPipeline_init local_sink) (replicate 6 ?pk @ [?pk]))) =
         td_attacks (fst (transform (ETLPipeline_init local_sink) (replicate 6 ?pk))) @
           [syn_flood_record pd ''10.0.0.5'' 7]
     \<and> attacks_detected (stats (snd (transform (ETLPipeline_init local_sink)
           (replicate 6 ?pk @ [?pk])))) =
         attacks_detected (stats (snd (transform (ETLPipeline_init local_sink)
           (replicate 6 ?pk)))) + 1"
    unfolding n l by simp
  from conjunct1[OF conjunct2[OF conjunct2[OF conjunct2[OF c]]]]
  have t: "length (filter (\<lambda>r. ar_attack_type r = ''SYN Flood'' \<and> ar_source_ip r = ''10.0.0.5'')
        (td_attacks (fst (transform (ETLPipeline_init local_sink) (replicate 6 ?pk))))) = 1"
    unfolding n by simp
  from s t syn_examples show ?thesis by blast
qed





end
